theory Spec2Isabelle
  imports Main "HOL-Library.Word" "HOL-Library.Sublist"
begin

unbundle bit_operations_syntax

section \<open>Machine types and the constants taken from the system headers\<close>

text \<open>
  The program is modelled for an LP64 platform: \<open>int\<close> is 32 bits wide, \<open>short\<close> 16 bits,
  \<open>size_t\<close> and \<open>ssize_t\<close> 64 bits. A \<open>ssize_t\<close> is read with \<open>sint\<close>, a \<open>size_t\<close> with
  \<open>unat\<close>; converting one into the other keeps the bits.
\<close>

type_synonym c_int = "32 word"
type_synonym c_short = "16 word"
type_synonym size_t = "64 word"
type_synonym ssize_t = "64 word"
type_synonym byte = "8 word"

definition EXIT_FAILURE :: c_int where
  "EXIT_FAILURE = 1"

definition STDIN_FILENO :: c_int where
  "STDIN_FILENO = 0"

definition STDOUT_FILENO :: c_int where
  "STDOUT_FILENO = 1"

definition POLLIN :: c_short where
  "POLLIN = 0x0001"

definition POLLOUT :: c_short where
  "POLLOUT = 0x0004"

definition POLLHUP :: c_short where
  "POLLHUP = 0x0010"

section \<open>my\_assert.h\<close>

definition ASSERT_PROGRAM_NAME :: string where
  "ASSERT_PROGRAM_NAME = ''terminator''"

text \<open>\<open>ASSERT_DEBUG\<close> is not defined, so only the program name is printed.\<close>

definition ASSERT_PRINT_PROGRAM_NAME :: string where
  "ASSERT_PRINT_PROGRAM_NAME = ASSERT_PROGRAM_NAME @ '': ''"

text \<open>
  What a failing \<open>ASSERT\<close> prints before \<open>exit(EXIT_FAILURE)\<close>: the program name, then
  \<open>perror(NULL)\<close>, that is the text of the current \<open>errno\<close> and a newline.
\<close>

definition ASSERT_output :: "string \<Rightarrow> string" where
  "ASSERT_output err = ASSERT_PRINT_PROGRAM_NAME @ err @ [CHR 0x0A]"

text \<open>What a failing \<open>ASSERT_WITH_MESSAGE\<close> prints.\<close>

definition ASSERT_WITH_MESSAGE_output :: "string \<Rightarrow> string" where
  "ASSERT_WITH_MESSAGE_output msg = ASSERT_PRINT_PROGRAM_NAME @ msg @ [CHR 0x0A]"

text \<open>
  \<open>ASSERT_NONNEG(X)\<close> is \<open>ASSERT((X) >= 0)\<close>. The macro is untyped, so the comparison is
  the one C selects for the type of \<open>X\<close>: signed for an \<open>int\<close> or \<open>ssize_t\<close>, unsigned for
  a \<open>size_t\<close>.
\<close>

definition ASSERT_NONNEG_int :: "c_int \<Rightarrow> bool" where
  "ASSERT_NONNEG_int x = (0 \<le> sint x)"

definition ASSERT_NONNEG_ssize_t :: "ssize_t \<Rightarrow> bool" where
  "ASSERT_NONNEG_ssize_t x = (0 \<le> sint x)"

definition ASSERT_NONNEG_size_t :: "size_t \<Rightarrow> bool" where
  "ASSERT_NONNEG_size_t x = (0 \<le> unat x)"

definition ASSERT_ZERO :: "c_int \<Rightarrow> bool" where
  "ASSERT_ZERO x = (x = 0)"

section \<open>The operating system as seen by one pump\<close>

text \<open>
  One \<open>event\<close> holds what the system calls of one loop iteration return. A \<open>read\<close>
  either fails or finds some bytes available, of which it delivers at most the count
  asked for; a \<open>write\<close> either fails or finds room for some bytes, of which it accepts at
  most the count offered.
\<close>

datatype read_result = Read_Error | Read_Avail "byte list"

datatype write_result = Write_Error | Write_Room nat

record event =
  poll_ret :: c_int
  ready_0 :: c_short
  ready_1 :: c_short
  read_res :: read_result
  write_res :: write_result
  fsync_ret :: c_int
  isastream_ret :: c_int
  isatty_ret :: c_int
  errno_text :: string

text \<open>The calls a pump makes, in order, with the address it passes to \<open>write\<close>.\<close>

datatype source_ptr = Buffer_plus size_t | Eot_char

datatype syscall =
    Poll
  | Read c_int nat
  | Write c_int source_ptr size_t
  | Fsync c_int

text \<open>\<open>poll\<close> ignores an entry whose descriptor is negative and reports no event for it.\<close>

definition poll_revents :: "c_int \<Rightarrow> c_short \<Rightarrow> c_short" where
  "poll_revents d ready = (if sint d < 0 then 0 else ready)"

text \<open>The bytes a \<open>read\<close> of \<open>count\<close> bytes delivers, if it does not fail.\<close>

definition sys_read :: "c_int \<Rightarrow> nat \<Rightarrow> read_result \<Rightarrow> byte list option" where
  "sys_read d count res =
     (if sint d < 0 then None
      else case res of Read_Error \<Rightarrow> None | Read_Avail bs \<Rightarrow> Some (take count bs))"

text \<open>The number of bytes a \<open>write\<close> of \<open>count\<close> bytes accepts, if it does not fail.\<close>

definition sys_write :: "c_int \<Rightarrow> nat \<Rightarrow> write_result \<Rightarrow> nat option" where
  "sys_write d count res =
     (if sint d < 0 then None
      else case res of Write_Error \<Rightarrow> None | Write_Room r \<Rightarrow> Some (min count r))"

text \<open>The value such a call returns: the count, or \<open>-1\<close>.\<close>

definition ret_val :: "nat option \<Rightarrow> ssize_t" where
  "ret_val r = (case r of None \<Rightarrow> - 1 | Some k \<Rightarrow> of_nat k)"

section \<open>terminator.c: the redirection pump\<close>

record redirection_info =
  info_id :: c_int
  in_fd :: c_int
  out_fd :: c_int
  send_eot :: c_int
  end_all :: c_int

record pollfd =
  fd :: c_int
  events :: c_short
  revents :: c_short

text \<open>
  The locals of \<open>redirection_thread_fn\<close>, and with them what the pump has done to the
  outside so far: the bytes its source has delivered (\<open>consumed\<close>), the bytes its
  destination has accepted (\<open>written\<close>), the system calls made (\<open>calls\<close>) and the text
  printed on standard error (\<open>stderr\<close>). \<open>BUFFER_SIZE\<close> is \<open>BUFSIZ\<close> of the platform; it is
  the length of \<open>buffer\<close>.
\<close>

record pump_state =
  keep_going :: c_int
  found_eof :: c_int
  poll_fds_0 :: pollfd
  poll_fds_1 :: pollfd
  buffer :: "byte list"
  buffer_length :: size_t
  buffer_offset :: size_t
  consumed :: "byte list"
  written :: "byte list"
  calls :: "syscall list"
  stderr :: string

definition BUFFER_SIZE :: "pump_state \<Rightarrow> nat" where
  "BUFFER_SIZE s = length (buffer s)"

text \<open>
  How a piece of the pump ends: the pump goes on, the process has called
  \<open>exit(EXIT_FAILURE)\<close>, a \<open>write\<close> has been handed bytes beyond the end of \<open>buffer\<close>
  (after which C says nothing about the program), or the loop has been left.
\<close>

datatype outcome =
    Continue pump_state
  | Died pump_state
  | Overrun pump_state
  | Finished pump_state

fun state_of :: "outcome \<Rightarrow> pump_state" where
  "state_of (Continue s) = s"
| "state_of (Died s) = s"
| "state_of (Overrun s) = s"
| "state_of (Finished s) = s"

text \<open>The state before the loop; the array \<open>buffer\<close> starts with whatever \<open>buf0\<close> it holds.\<close>

definition pump_init :: "redirection_info \<Rightarrow> byte list \<Rightarrow> pump_state" where
  "pump_init info buf0 =
     \<lparr> keep_going = 1, found_eof = 0,
       poll_fds_0 = \<lparr> fd = in_fd info, events = POLLIN, revents = 0 \<rparr>,
       poll_fds_1 = \<lparr> fd = out_fd info, events = POLLOUT, revents = 0 \<rparr>,
       buffer = buf0, buffer_length = 0, buffer_offset = 0,
       consumed = [], written = [], calls = [], stderr = [] \<rparr>"

text \<open>A failed \<open>ASSERT\<close>: the diagnostic is printed and the process exits.\<close>

definition ASSERT_fails :: "event \<Rightarrow> pump_state \<Rightarrow> outcome" where
  "ASSERT_fails e s = Died (s\<lparr> stderr := stderr s @ ASSERT_output (errno_text e) \<rparr>)"

text \<open>Line 186: \<open>poll\<close> stores the events of both descriptors.\<close>

definition do_poll :: "event \<Rightarrow> pump_state \<Rightarrow> pump_state" where
  "do_poll e s =
     s\<lparr> poll_fds_0 := (poll_fds_0 s)\<lparr> revents := poll_revents (fd (poll_fds_0 s)) (ready_0 e) \<rparr>,
        poll_fds_1 := (poll_fds_1 s)\<lparr> revents := poll_revents (fd (poll_fds_1 s)) (ready_1 e) \<rparr>,
        calls := calls s @ [Poll] \<rparr>"

text \<open>Lines 188 to 194: hang-up on the source with nothing left to read.\<close>

definition source_hangup :: "pump_state \<Rightarrow> pump_state" where
  "source_hangup s =
     (if revents (poll_fds_0 s) AND POLLHUP \<noteq> 0 \<and> \<not> (revents (poll_fds_0 s) AND POLLIN \<noteq> 0)
      then s\<lparr> poll_fds_0 := (poll_fds_0 s)\<lparr> fd := - 1 \<rparr>, found_eof := 1 \<rparr>
      else s)"

text \<open>Lines 196 to 204: hang-up on the destination.\<close>

definition destination_hangup :: "pump_state \<Rightarrow> pump_state" where
  "destination_hangup s =
     (if revents (poll_fds_1 s) AND POLLHUP \<noteq> 0
      then s\<lparr> poll_fds_1 := (poll_fds_1 s)\<lparr> fd := - 1 \<rparr>, keep_going := 0,
              buffer_offset := 0, buffer_length := 0 \<rparr>
      else s)"

text \<open>
  Lines 206 to 223. \<open>n_read\<close> is a \<open>size_t\<close>: the value \<open>read\<close> returns is converted
  before \<open>ASSERT_NONNEG\<close> compares it.
\<close>

definition fill :: "event \<Rightarrow> pump_state \<Rightarrow> outcome" where
  "fill e s =
     (if keep_going s \<noteq> 0 \<and> found_eof s = 0 \<and> revents (poll_fds_0 s) AND POLLIN \<noteq> 0
         \<and> buffer_length s = 0
      then
        let got = sys_read (fd (poll_fds_0 s)) (BUFFER_SIZE s) (read_res e);
            bytes = (case got of None \<Rightarrow> [] | Some bs \<Rightarrow> bs);
            n_read = (ret_val (map_option length got) :: size_t);
            s1 = s\<lparr> buffer := bytes @ drop (length bytes) (buffer s),
                    consumed := consumed s @ bytes,
                    calls := calls s @ [Read (fd (poll_fds_0 s)) (BUFFER_SIZE s)] \<rparr>
        in if \<not> ASSERT_NONNEG_size_t n_read then ASSERT_fails e s1
           else
             let s2 = s1\<lparr> buffer_offset := 0, buffer_length := n_read \<rparr>
             in if n_read = 0
                then Continue (s2\<lparr> poll_fds_0 := (poll_fds_0 s2)\<lparr> fd := - 1 \<rparr>, found_eof := 1 \<rparr>)
                else Continue s2
      else Continue s)"

text \<open>Lines 231, 246 and 255: \<open>ASSERT_ZERO(fsync(poll_fds[1].fd))\<close>, then the rest \<open>k\<close>.\<close>

definition do_fsync :: "event \<Rightarrow> pump_state \<Rightarrow> (pump_state \<Rightarrow> outcome) \<Rightarrow> outcome" where
  "do_fsync e s k =
     (let s1 = s\<lparr> calls := calls s @ [Fsync (fd (poll_fds_1 s))] \<rparr>
      in if \<not> ASSERT_ZERO (fsync_ret e) then ASSERT_fails e s1 else k s1)"

text \<open>Lines 242 to 263: the end-of-transmission byte, or a write of no bytes.\<close>

definition eot_char :: byte where
  "eot_char = 0x04"

definition write_eot :: "redirection_info \<Rightarrow> event \<Rightarrow> pump_state \<Rightarrow> outcome" where
  "write_eot info e s =
     (let n = (if send_eot info \<noteq> 0 \<and> (isastream_ret e \<noteq> 0 \<or> isatty_ret e \<noteq> 0)
               then 1 else 0 :: nat);
          accepted = sys_write (fd (poll_fds_1 s)) n (write_res e);
          s1 = s\<lparr> written := written s @ take (case accepted of None \<Rightarrow> 0 | Some k \<Rightarrow> k) [eot_char],
                  calls := calls s @ [Write (fd (poll_fds_1 s)) Eot_char (of_nat n)] \<rparr>
      in if \<not> ASSERT_NONNEG_ssize_t (ret_val accepted) then ASSERT_fails e s1
         else do_fsync e s1 (\<lambda>s2. Continue (s2\<lparr> keep_going := 0 \<rparr>)))"

text \<open>
  Lines 226 to 240. \<open>n_written\<close> is a \<open>size_t\<close> as well. The bytes offered to \<open>write\<close> start
  at \<open>buffer + buffer_offset\<close>; bytes accepted from beyond the end of the array are not
  modelled.
\<close>

definition write_buffer :: "event \<Rightarrow> pump_state \<Rightarrow> outcome" where
  "write_buffer e s =
     (let accepted = sys_write (fd (poll_fds_1 s)) (unat (buffer_length s)) (write_res e);
          k = (case accepted of None \<Rightarrow> 0 | Some k \<Rightarrow> k);
          n_written = (ret_val accepted :: size_t);
          s1 = s\<lparr> written := written s @ take k (drop (unat (buffer_offset s)) (buffer s)),
                  calls := calls s @ [Write (fd (poll_fds_1 s)) (Buffer_plus (buffer_offset s))
                                        (buffer_length s)] \<rparr>
      in if BUFFER_SIZE s < unat (buffer_offset s) + k then Overrun s1
         else if \<not> ASSERT_NONNEG_size_t n_written then ASSERT_fails e s1
         else do_fsync e s1
                (\<lambda>s2. Continue (s2\<lparr> buffer_offset := buffer_offset s2 + n_written,
                                    buffer_length := buffer_length s2 - n_written \<rparr>)))"

text \<open>Lines 225 to 265.\<close>

definition drain :: "redirection_info \<Rightarrow> event \<Rightarrow> pump_state \<Rightarrow> outcome" where
  "drain info e s =
     (if revents (poll_fds_1 s) AND POLLOUT \<noteq> 0
      then if 0 < buffer_length s then write_buffer e s
           else if found_eof s \<noteq> 0 then write_eot info e s
           else Continue s
      else Continue s)"

text \<open>Lines 186 to 265: the body of the loop.\<close>

definition pump_cycle :: "redirection_info \<Rightarrow> event \<Rightarrow> pump_state \<Rightarrow> outcome" where
  "pump_cycle info e s =
     (let s1 = do_poll e s
      in if \<not> ASSERT_NONNEG_int (poll_ret e) then ASSERT_fails e s1
         else case fill e (destination_hangup (source_hangup s1)) of
                Continue s2 \<Rightarrow> drain info e s2
              | other \<Rightarrow> other)"

text \<open>
  Line 185: \<open>(keep_going &= !all_done) || buffer_length\<close>, with the value \<open>ad\<close> read from
  the volatile \<open>all_done\<close>. The assignment happens whether or not the loop goes on.
\<close>

definition lnot :: "c_int \<Rightarrow> c_int" where
  "lnot x = (if x = 0 then 1 else 0)"

definition loop_test :: "c_int \<Rightarrow> pump_state \<Rightarrow> pump_state \<times> bool" where
  "loop_test ad s =
     (let s1 = s\<lparr> keep_going := keep_going s AND lnot ad \<rparr>
      in (s1, keep_going s1 \<noteq> 0 \<or> buffer_length s1 \<noteq> 0))"

text \<open>One pass of the \<open>while\<close>: the test, then the body or the way out.\<close>

definition pump_iter :: "redirection_info \<Rightarrow> c_int \<Rightarrow> event \<Rightarrow> pump_state \<Rightarrow> outcome" where
  "pump_iter info ad e s =
     (case loop_test ad s of
        (s1, True) \<Rightarrow> pump_cycle info e s1
      | (s1, False) \<Rightarrow> Finished s1)"

text \<open>
  The loop, run on the values of \<open>all_done\<close> and the events the passes meet. When these
  are used up and the loop has not been left the result is \<open>Continue\<close>.
\<close>

fun pump_loop :: "redirection_info \<Rightarrow> pump_state \<Rightarrow> (c_int \<times> event) list \<Rightarrow> outcome" where
  "pump_loop info s [] = Continue s"
| "pump_loop info s ((ad, e) # es) =
     (case pump_iter info ad e s of
        Continue s1 \<Rightarrow> pump_loop info s1 es
      | other \<Rightarrow> other)"

text \<open>Lines 268 to 273: what leaving the loop does to \<open>all_done\<close>.\<close>

definition set_all_done :: "redirection_info \<Rightarrow> c_int \<Rightarrow> c_int" where
  "set_all_done info ad = (if end_all info \<noteq> 0 then 1 else ad)"

text \<open>Line 166: the flag shared by the two threads starts as 0.\<close>

definition all_done_init :: c_int where
  "all_done_init = 0"

text \<open>
  The thread function from its first line to its return: the loop on the events it meets
  and, once the loop is left, lines 268 to 273. The argument \<open>all_done\<close> is what the flag
  holds when the loop is left, the second component of the result what it holds when the
  function returns.
\<close>

definition redirection_thread_fn ::
  "redirection_info \<Rightarrow> byte list \<Rightarrow> (c_int \<times> event) list \<Rightarrow> c_int \<Rightarrow> outcome \<times> c_int" where
  "redirection_thread_fn info buf0 evs all_done =
     (case pump_loop info (pump_init info buf0) evs of
        Finished s \<Rightarrow> (Finished s, set_all_done info all_done)
      | other \<Rightarrow> (other, all_done))"

section \<open>terminator.c: main\<close>

text \<open>
  The macros of \<open>sys/wait.h\<close>, as glibc defines them, and the status \<open>waitpid\<close> stores for
  a child that has exited with a code or has been killed by a signal.
\<close>

definition WIFEXITED :: "c_int \<Rightarrow> bool" where
  "WIFEXITED status = (status AND 0x7f = 0)"

definition WEXITSTATUS :: "c_int \<Rightarrow> c_int" where
  "WEXITSTATUS status = drop_bit 8 (status AND 0xff00)"

datatype child_end = Child_exited byte | Child_killed byte bool

fun wstatus :: "child_end \<Rightarrow> c_int" where
  "wstatus (Child_exited code) = push_bit 8 (ucast code)"
| "wstatus (Child_killed sig core) = ucast sig OR (if core then 0x80 else 0)"

text \<open>
  What the two pump threads do between \<open>pthread_create\<close> and \<open>pthread_join\<close>: both
  return, or one of them fails an \<open>ASSERT\<close> and ends the process with its diagnostic, or
  one of them never leaves its loop.
\<close>

datatype pumps_end = Pumps_return | Pump_exits string | Pumps_hang

text \<open>What the system calls of \<open>main\<close> return.\<close>

record main_sys =
  posix_openpt_ret :: c_int
  grantpt_ret :: c_int
  unlockpt_ret :: c_int
  open_ret :: c_int
  fork_ret :: c_int
  isastream_fds :: c_int
  ioctl_ptem_ret :: c_int
  ioctl_ldterm_ret :: c_int
  tcgetattr_ret :: c_int
  tcsetattr_ret :: c_int
  setsid_ret :: c_int
  dup2_stdin_ret :: c_int
  dup2_stdout_ret :: c_int
  dup2_stderr_ret :: c_int
  child_close_fdm_ret :: c_int
  child_close_fds_ret :: c_int
  ioctl_tiocsctty_ret :: c_int
  execvp_ret :: "c_int option"
  close_fds_ret :: c_int
  waitpid_ret :: c_int
  wait_status :: c_int
  pumps :: pumps_end
  close_fdm_ret :: c_int
  main_errno_text :: string

datatype main_call =
    Posix_openpt | Grantpt | Unlockpt | Open_ptsname | Fork
  | Isastream | Ioctl_push string | Tcgetattr | Cfmakeraw | Tcsetattr | Setsid
  | Dup2 c_int | Close_fdm | Close_fds | Ioctl_tiocsctty | Execvp
  | Pthread_create c_int | Waitpid | Pthread_join c_int

text \<open>
  How the process ends: \<open>exit\<close> is called, \<open>main\<close> returns, \<open>execvp\<close> replaces the
  program, or \<open>pthread_join\<close> never comes back.
\<close>

datatype ending = Exit_called c_int | Returned c_int | Image_replaced | Never_returns

record main_result =
  ending :: ending
  main_calls :: "main_call list"
  main_stderr :: string

fun exit_status :: "ending \<Rightarrow> c_int option" where
  "exit_status (Exit_called c) = Some c"
| "exit_status (Returned c) = Some c"
| "exit_status Image_replaced = None"
| "exit_status Never_returns = None"

text \<open>
  A run of calls, each with the truth of the assertion made on it (\<open>True\<close> where the result
  is not asserted): the first failing assertion prints the diagnostic and exits.
\<close>

fun run_asserts ::
  "string \<Rightarrow> (main_call \<times> bool) list \<Rightarrow> main_call list \<Rightarrow> (main_call list \<Rightarrow> main_result)
     \<Rightarrow> main_result" where
  "run_asserts err [] tr k = k tr"
| "run_asserts err ((c, ok) # cs) tr k =
     (if ok then run_asserts err cs (tr @ [c]) k
      else \<lparr> ending = Exit_called EXIT_FAILURE, main_calls = tr @ [c],
             main_stderr = ASSERT_output err \<rparr>)"

text \<open>Lines 78 to 88.\<close>

definition setup_calls :: "main_sys \<Rightarrow> (main_call \<times> bool) list" where
  "setup_calls sys =
     [(Posix_openpt, ASSERT_NONNEG_int (posix_openpt_ret sys)),
      (Grantpt, ASSERT_ZERO (grantpt_ret sys)),
      (Unlockpt, ASSERT_ZERO (unlockpt_ret sys)),
      (Open_ptsname, ASSERT_NONNEG_int (open_ret sys)),
      (Fork, ASSERT_NONNEG_int (fork_ret sys))]"

text \<open>Lines 95 to 115, in the child.\<close>

definition child_calls :: "main_sys \<Rightarrow> (main_call \<times> bool) list" where
  "child_calls sys =
     (Isastream, True) #
     (if isastream_fds sys \<noteq> 0
      then [(Ioctl_push ''ptem'', ASSERT_NONNEG_int (ioctl_ptem_ret sys)),
            (Ioctl_push ''ldterm'', ASSERT_NONNEG_int (ioctl_ldterm_ret sys))]
      else []) @
     [(Tcgetattr, ASSERT_ZERO (tcgetattr_ret sys)),
      (Cfmakeraw, True),
      (Tcsetattr, ASSERT_ZERO (tcsetattr_ret sys)),
      (Setsid, ASSERT_NONNEG_int (setsid_ret sys)),
      (Dup2 STDIN_FILENO, ASSERT_NONNEG_int (dup2_stdin_ret sys)),
      (Dup2 STDOUT_FILENO, ASSERT_NONNEG_int (dup2_stdout_ret sys)),
      (Dup2 2, ASSERT_NONNEG_int (dup2_stderr_ret sys)),
      (Close_fdm, ASSERT_ZERO (child_close_fdm_ret sys)),
      (Close_fds, ASSERT_ZERO (child_close_fds_ret sys)),
      (Ioctl_tiocsctty, ASSERT_NONNEG_int (ioctl_tiocsctty_ret sys))]"

text \<open>Lines 132 to 141, in the parent.\<close>

definition parent_calls :: "main_sys \<Rightarrow> (main_call \<times> bool) list" where
  "parent_calls sys =
     [(Pthread_create 0, True),
      (Pthread_create 1, True),
      (Close_fds, ASSERT_ZERO (close_fds_ret sys)),
      (Waitpid, ASSERT_NONNEG_int (waitpid_ret sys))]"

text \<open>Lines 127 and 128.\<close>

definition reader_info :: "c_int \<Rightarrow> redirection_info" where
  "reader_info fdm =
     \<lparr> info_id = 0, in_fd = STDIN_FILENO, out_fd = fdm, send_eot = 1, end_all = 0 \<rparr>"

definition writer_info :: "c_int \<Rightarrow> redirection_info" where
  "writer_info fdm =
     \<lparr> info_id = 1, in_fd = fdm, out_fd = STDOUT_FILENO, send_eot = 0, end_all = 1 \<rparr>"

text \<open>Lines 62 to 162. \<open>exitstatus\<close> starts as \<open>EXIT_FAILURE\<close>.\<close>

definition main :: "c_int \<Rightarrow> main_sys \<Rightarrow> main_result" where
  "main argc sys =
     (let err = main_errno_text sys; exitstatus = EXIT_FAILURE
      in if \<not> 1 < sint argc
         then \<lparr> ending = Exit_called EXIT_FAILURE, main_calls = [],
                main_stderr = ASSERT_WITH_MESSAGE_output ''Insufficient command line arguments'' \<rparr>
         else run_asserts err (setup_calls sys) []
           (\<lambda>tr. if fork_ret sys = 0
              then run_asserts err (child_calls sys) tr
                (\<lambda>tr. case execvp_ret sys of
                     None \<Rightarrow> \<lparr> ending = Image_replaced, main_calls = tr @ [Execvp],
                               main_stderr = [] \<rparr>
                   | Some r \<Rightarrow> run_asserts err [(Execvp, ASSERT_ZERO r)] tr
                       (\<lambda>tr. \<lparr> ending = Returned exitstatus, main_calls = tr,
                               main_stderr = [] \<rparr>))
              else run_asserts err (parent_calls sys) tr
                (\<lambda>tr. case pumps sys of
                     Pumps_hang \<Rightarrow> \<lparr> ending = Never_returns, main_calls = tr @ [Pthread_join 0],
                                     main_stderr = [] \<rparr>
                   | Pump_exits diag \<Rightarrow> \<lparr> ending = Exit_called EXIT_FAILURE,
                                          main_calls = tr @ [Pthread_join 0],
                                          main_stderr = diag \<rparr>
                   | Pumps_return \<Rightarrow>
                       let exitstatus = (if WIFEXITED (wait_status sys)
                                         then WEXITSTATUS (wait_status sys) else exitstatus)
                       in run_asserts err [(Close_fdm, ASSERT_ZERO (close_fdm_ret sys))]
                            (tr @ [Pthread_join 0, Pthread_join 1])
                            (\<lambda>tr. \<lparr> ending = Returned exitstatus, main_calls = tr,
                                    main_stderr = [] \<rparr>))))"

section \<open>Notions used to state the properties\<close>

text \<open>The bytes read and not yet written: \<open>buffer_length\<close> bytes from \<open>buffer_offset\<close> on.\<close>

definition pending :: "pump_state \<Rightarrow> byte list" where
  "pending s = take (unat (buffer_length s)) (drop (unat (buffer_offset s)) (buffer s))"

text \<open>An event in which neither \<open>read\<close> nor \<open>write\<close> reports an error.\<close>

definition io_ok :: "event \<Rightarrow> bool" where
  "io_ok e = (read_res e \<noteq> Read_Error \<and> write_res e \<noteq> Write_Error)"

text \<open>The chunk in flight lies inside the array, whose size fits a \<open>ssize_t\<close>.\<close>

definition in_bounds :: "pump_state \<Rightarrow> bool" where
  "in_bounds s =
     (BUFFER_SIZE s < 2 ^ 63 \<and> unat (buffer_offset s) + unat (buffer_length s) \<le> BUFFER_SIZE s)"

text \<open>Everything read has been written or is waiting in the buffer.\<close>

definition relay_inv :: "pump_state \<Rightarrow> bool" where
  "relay_inv s = (in_bounds s \<and> consumed s = written s @ pending s)"

text \<open>The next test of the loop condition fails, whatever \<open>all_done\<close> holds.\<close>

definition closed :: "pump_state \<Rightarrow> bool" where
  "closed s = (keep_going s = 0 \<and> buffer_length s = 0)"

text \<open>
  What has reached the destination is a beginning of what was read, or all of it and the
  end-of-transmission byte of a pump that sends one.
\<close>

definition safe :: "redirection_info \<Rightarrow> pump_state \<Rightarrow> bool" where
  "safe info s =
     (prefix (written s) (consumed s)
      \<or> (send_eot info \<noteq> 0 \<and> written s = consumed s @ [eot_char]))"

definition run_inv :: "redirection_info \<Rightarrow> pump_state \<Rightarrow> bool" where
  "run_inv info s =
     (in_bounds s \<and>
      (consumed s = written s @ pending s
       \<or> (closed s \<and> fd (poll_fds_1 s) = - 1 \<and> prefix (written s) (consumed s))
       \<or> (closed s \<and> send_eot info \<noteq> 0 \<and> written s = consumed s @ [eot_char])))"

text \<open>The number of \<open>read\<close> calls a pump has made.\<close>

fun is_Read :: "syscall \<Rightarrow> bool" where
  "is_Read (Read d n) = True"
| "is_Read Poll = False"
| "is_Read (Write d p n) = False"
| "is_Read (Fsync d) = False"

definition reads :: "pump_state \<Rightarrow> nat" where
  "reads s = length (filter is_Read (calls s))"

text \<open>The number of \<open>write\<close> calls that offered the end-of-transmission byte.\<close>

fun is_eot_write :: "syscall \<Rightarrow> bool" where
  "is_eot_write (Write d Eot_char n) = (n = 1)"
| "is_eot_write (Write d (Buffer_plus x) n) = False"
| "is_eot_write Poll = False"
| "is_eot_write (Read d n) = False"
| "is_eot_write (Fsync d) = False"

definition eot_writes :: "pump_state \<Rightarrow> nat" where
  "eot_writes s = length (filter is_eot_write (calls s))"

text \<open>No end-of-transmission byte has been offered yet, or one has and the loop is over.\<close>

definition eot_inv :: "pump_state \<Rightarrow> bool" where
  "eot_inv s = (eot_writes s = 0 \<or> (eot_writes s = 1 \<and> closed s))"

text \<open>
  The invariant of the transfer buffer as the code keeps it: the chunk lies inside the
  array, and while the loop can go on the \<open>buffer_length\<close> bytes from \<open>buffer_offset\<close> on
  are exactly the bytes read and not yet written.
\<close>

definition buffer_inv :: "pump_state \<Rightarrow> bool" where
  "buffer_inv s = (in_bounds s \<and> (\<not> closed s \<longrightarrow> consumed s = written s @ pending s))"

text \<open>
  The invariant in the words of the specification: \<open>length - offset\<close> bytes remain to be
  written, and \<open>offset + length\<close> does not exceed the capacity.
\<close>

definition spec_buffer_inv :: "pump_state \<Rightarrow> bool" where
  "spec_buffer_inv s =
     (int (length (consumed s)) - int (length (written s))
        = int (unat (buffer_length s)) - int (unat (buffer_offset s))
      \<and> unat (buffer_offset s) + unat (buffer_length s) \<le> BUFFER_SIZE s)"

text \<open>After \<open>poll\<close>, a descriptor reported readable or writable is not a retired one.\<close>

definition source_polled :: "pump_state \<Rightarrow> bool" where
  "source_polled s = (revents (poll_fds_0 s) AND POLLIN \<noteq> 0 \<longrightarrow> 0 \<le> sint (fd (poll_fds_0 s)))"

definition destination_polled :: "pump_state \<Rightarrow> bool" where
  "destination_polled s =
     (revents (poll_fds_1 s) AND POLLOUT \<noteq> 0 \<longrightarrow> 0 \<le> sint (fd (poll_fds_1 s)))"

text \<open>The state a hang-up of the destination leaves.\<close>

definition hung :: "pump_state \<Rightarrow> bool" where
  "hung s =
     (in_bounds s \<and> closed s \<and> fd (poll_fds_1 s) = - 1 \<and> prefix (written s) (consumed s))"

fun good :: "redirection_info \<Rightarrow> outcome \<Rightarrow> bool" where
  "good info (Continue s) = run_inv info s"
| "good info (Died s) = safe info s"
| "good info (Overrun s) = False"
| "good info (Finished s) = (run_inv info s \<and> closed s)"

text \<open>
  The results of the calls of \<open>main\<close>, spelled out on the values returned. Before the
  fork: a command was given, a PTY master was obtained, granted, unlocked, and its slave
  opened.
\<close>

definition before_fork_ok :: "c_int \<Rightarrow> main_sys \<Rightarrow> bool" where
  "before_fork_ok argc sys =
     (1 < sint argc \<and> 0 \<le> sint (posix_openpt_ret sys) \<and> grantpt_ret sys = 0
      \<and> unlockpt_ret sys = 0 \<and> 0 \<le> sint (open_ret sys))"

text \<open>
  In the parent: the fork gave a child, the slave was closed, \<open>waitpid\<close> succeeded, both
  pumps returned and the master was closed.
\<close>

definition parent_ok :: "main_sys \<Rightarrow> bool" where
  "parent_ok sys =
     (0 < sint (fork_ret sys) \<and> close_fds_ret sys = 0 \<and> 0 \<le> sint (waitpid_ret sys)
      \<and> pumps sys = Pumps_return \<and> close_fdm_ret sys = 0)"

text \<open>In the child: every call before \<open>execvp\<close> succeeded.\<close>

definition child_ok :: "main_sys \<Rightarrow> bool" where
  "child_ok sys =
     ((isastream_fds sys = 0
       \<or> (0 \<le> sint (ioctl_ptem_ret sys) \<and> 0 \<le> sint (ioctl_ldterm_ret sys)))
      \<and> tcgetattr_ret sys = 0 \<and> tcsetattr_ret sys = 0 \<and> 0 \<le> sint (setsid_ret sys)
      \<and> 0 \<le> sint (dup2_stdin_ret sys) \<and> 0 \<le> sint (dup2_stdout_ret sys)
      \<and> 0 \<le> sint (dup2_stderr_ret sys) \<and> child_close_fdm_ret sys = 0
      \<and> child_close_fds_ret sys = 0 \<and> 0 \<le> sint (ioctl_tiocsctty_ret sys))"

section \<open>Concrete inputs\<close>

text \<open>A run of \<open>main\<close> in which every call succeeds and the pumps return.\<close>

definition sys_fine :: "c_int \<Rightarrow> main_sys" where
  "sys_fine status =
     \<lparr> posix_openpt_ret = 3, grantpt_ret = 0, unlockpt_ret = 0, open_ret = 4, fork_ret = 4242,
       isastream_fds = 0, ioctl_ptem_ret = 0, ioctl_ldterm_ret = 0, tcgetattr_ret = 0,
       tcsetattr_ret = 0, setsid_ret = 0, dup2_stdin_ret = 0, dup2_stdout_ret = 1,
       dup2_stderr_ret = 2, child_close_fdm_ret = 0, child_close_fds_ret = 0,
       ioctl_tiocsctty_ret = 0, execvp_ret = None, close_fds_ret = 0, waitpid_ret = 4242,
       wait_status = status, pumps = Pumps_return, close_fdm_ret = 0,
       main_errno_text = ''Permission denied'' \<rparr>"

text \<open>
  The child exits with code 7, while a pump fails an assertion (\<open>fsync\<close> refusing the
  destination) and ends the process; and the same child, while the last \<open>close\<close> of the
  master fails.
\<close>

definition sys_pump_dies :: main_sys where
  "sys_pump_dies =
     (sys_fine (wstatus (Child_exited 7)))
       \<lparr> pumps := Pump_exits (''terminator: Invalid argument'' @ [CHR 0x0A]) \<rparr>"

definition sys_close_fails :: main_sys where
  "sys_close_fails = (sys_fine (wstatus (Child_exited 7)))\<lparr> close_fdm_ret := - 1 \<rparr>"

text \<open>Events: nothing is ready; the source is readable; the destination is writable; both.\<close>

definition idle :: event where
  "idle =
     \<lparr> poll_ret = 0, ready_0 = 0, ready_1 = 0, read_res = Read_Avail [], write_res = Write_Room 0,
       fsync_ret = 0, isastream_ret = 0, isatty_ret = 1, errno_text = ''Bad file descriptor'' \<rparr>"

definition readable :: "byte list \<Rightarrow> event" where
  "readable bs = idle\<lparr> poll_ret := 1, ready_0 := POLLIN, read_res := Read_Avail bs \<rparr>"

definition writable :: "nat \<Rightarrow> event" where
  "writable r = idle\<lparr> poll_ret := 1, ready_1 := POLLOUT, write_res := Write_Room r \<rparr>"

definition both_ready :: "byte list \<Rightarrow> nat \<Rightarrow> event" where
  "both_ready bs r =
     idle\<lparr> poll_ret := 2, ready_0 := POLLIN, ready_1 := POLLOUT, read_res := Read_Avail bs,
           write_res := Write_Room r \<rparr>"

text \<open>The peer of the destination has closed; nothing else is reported.\<close>

definition destination_gone :: event where
  "destination_gone = idle\<lparr> poll_ret := 1, ready_1 := POLLHUP \<rparr>"

text \<open>The pump from standard input to a PTY master on descriptor 3, with a buffer of 8 bytes.\<close>

definition reader_start :: pump_state where
  "reader_start = pump_init (reader_info 3) [0, 0, 0, 0, 0, 0, 0, 0]"

text \<open>
  Two bytes are read and written in two pieces; then the source is at its end and the
  destination writable; then the loop is left.
\<close>

definition eot_run :: "(c_int \<times> event) list" where
  "eot_run = [(0, readable [104, 105]), (0, writable 1), (0, writable 8), (0, both_ready [] 8),
              (0, idle)]"

text \<open>Two bytes are read; then the destination hangs up.\<close>

definition hangup_run :: "(c_int \<times> event) list" where
  "hangup_run = [(0, readable [104, 105]), (0, destination_gone), (0, idle)]"

text \<open>Three bytes are read and two of them written.\<close>

definition partial_run :: "(c_int \<times> event) list" where
  "partial_run = [(0, readable [104, 105, 106]), (0, writable 2)]"

text \<open>The states after the first pass of \<open>partial_run\<close> and after the whole of it.\<close>

definition filled :: pump_state where
  "filled = state_of (pump_loop (reader_info 3) reader_start [(0, readable [104, 105, 106])])"

definition half_sent :: pump_state where
  "half_sent = state_of (pump_loop (reader_info 3) reader_start partial_run)"

text \<open>The source is reported readable and \<open>read\<close> fails.\<close>

definition read_fails :: event where
  "read_fails = (readable [])\<lparr> read_res := Read_Error, errno_text := ''Input/output error'' \<rparr>"

text \<open>The destination is reported writable and \<open>write\<close> fails.\<close>

definition write_fails :: event where
  "write_fails = (writable 0)\<lparr> write_res := Write_Error, errno_text := ''Input/output error'' \<rparr>"

text \<open>The pump from a PTY master on descriptor 3 to standard output.\<close>

definition writer_start :: pump_state where
  "writer_start = pump_init (writer_info 3) [0, 0, 0, 0, 0, 0, 0, 0]"

text \<open>Three bytes are read, two written; the next \<open>write\<close> fails, the one after it does not.\<close>

definition write_error_run :: "(c_int \<times> event) list" where
  "write_error_run =
     [(0, readable [104, 105, 106]), (0, writable 2), (0, write_fails), (0, writable 8)]"

text \<open>
  The destination has hung up and is reported writable as well; asked about the retired
  descriptor \<open>-1\<close>, \<open>isastream\<close> answers \<open>-1\<close> and \<open>isatty\<close> 0.
\<close>

definition destination_gone_writable :: event where
  "destination_gone_writable =
     idle\<lparr> poll_ret := 1, ready_1 := POLLHUP OR POLLOUT, isastream_ret := - 1, isatty_ret := 0 \<rparr>"

text \<open>
  The source is at its end while the destination is not writable; then the destination
  hangs up.
\<close>

definition eof_then_hangup_run :: "(c_int \<times> event) list" where
  "eof_then_hangup_run = [(0, readable []), (0, destination_gone_writable)]"

section \<open>Properties\<close>

subsection \<open>Arithmetic on sizes\<close>

lemma unat_of_nat64: "n < 2 ^ 63 \<Longrightarrow> unat (of_nat n :: 64 word) = n"
  by (simp add: unat_of_nat)

lemma of_nat64_eq_0: "n < 2 ^ 63 \<Longrightarrow> (of_nat n :: 64 word) = 0 \<longleftrightarrow> n = 0"
  using unat_of_nat64 [of n] by (auto simp: unat_eq_0 [symmetric] simp del: unat_eq_0)

lemma take_split: "k \<le> l \<Longrightarrow> take l xs = take k xs @ take (l - k) (drop k xs)"
  by (metis take_add le_add_diff_inverse)

lemma unat_add_of_nat64:
  "unat (x :: 64 word) + k < 2 ^ 63 \<Longrightarrow> unat (x + of_nat k) = unat x + k"
proof -
  assume a: "unat x + k < 2 ^ 63"
  then have k: "unat (of_nat k :: 64 word) = k" by (simp add: unat_of_nat64)
  have "unat x + unat (of_nat k :: 64 word) < 2 ^ LENGTH(64)" using a k by simp
  then show ?thesis using k by (simp only: unat_add_lem [THEN iffD1])
qed

lemma unat_sub_of_nat64:
  "k \<le> unat (x :: 64 word) \<Longrightarrow> unat x < 2 ^ 63 \<Longrightarrow> unat (x - of_nat k) = unat x - k"
proof -
  assume a: "k \<le> unat x" "unat x < 2 ^ 63"
  then have k: "unat (of_nat k :: 64 word) = k" by (simp add: unat_of_nat64)
  then have "of_nat k \<le> x" using a by (simp add: word_le_nat_alt)
  then show ?thesis using k by (simp add: unat_sub)
qed

subsection \<open>The invariant of the relay\<close>

lemma do_poll_relay: "relay_inv s \<Longrightarrow> relay_inv (do_poll e s)"
  by (simp add: relay_inv_def in_bounds_def do_poll_def pending_def BUFFER_SIZE_def)

lemma do_poll_source: "source_polled (do_poll e s)"
  by (simp add: do_poll_def poll_revents_def source_polled_def)

lemma do_poll_destination: "destination_polled (do_poll e s)"
  by (simp add: do_poll_def poll_revents_def destination_polled_def)

lemma source_hangup_relay: "relay_inv s \<Longrightarrow> relay_inv (source_hangup s)"
  by (simp add: relay_inv_def in_bounds_def source_hangup_def pending_def BUFFER_SIZE_def)

lemma source_hangup_source: "source_polled s \<Longrightarrow> source_polled (source_hangup s)"
  by (simp add: source_hangup_def source_polled_def)

lemma source_hangup_destination: "destination_polled s \<Longrightarrow> destination_polled (source_hangup s)"
  by (simp add: source_hangup_def destination_polled_def)

lemma destination_hangup_cases:
  assumes "relay_inv s" "source_polled s" "destination_polled s"
  shows "(relay_inv (destination_hangup s) \<and> source_polled (destination_hangup s)
           \<and> destination_polled (destination_hangup s))
         \<or> hung (destination_hangup s)"
  using assms
  by (auto simp: destination_hangup_def relay_inv_def in_bounds_def pending_def BUFFER_SIZE_def
        hung_def closed_def source_polled_def destination_polled_def)

lemma fill_hung: "hung s \<Longrightarrow> fill e s = Continue s"
  by (simp add: fill_def hung_def closed_def)

lemma fill_relay:
  assumes "relay_inv s" "source_polled s" "destination_polled s" "io_ok e"
  shows "\<exists>s'. fill e s = Continue s' \<and> relay_inv s' \<and> destination_polled s'"
proof (cases "keep_going s \<noteq> 0 \<and> found_eof s = 0 \<and> revents (poll_fds_0 s) AND POLLIN \<noteq> 0
         \<and> buffer_length s = 0")
  case False
  then show ?thesis using assms by (auto simp: fill_def)
next
  case True
  from assms(4) obtain bs where bs: "read_res e = Read_Avail bs"
    by (cases "read_res e") (auto simp: io_ok_def)
  from True assms(2) have fd0: "\<not> sint (fd (poll_fds_0 s)) < 0"
    by (auto simp: source_polled_def)
  define bytes where "bytes = take (length (buffer s)) bs"
  have len: "length bytes < 2 ^ 63" "length bytes \<le> length (buffer s)"
    using assms(1) by (auto simp: bytes_def relay_inv_def in_bounds_def BUFFER_SIZE_def)
  have got: "sys_read (fd (poll_fds_0 s)) (length (buffer s)) (read_res e) = Some bytes"
    using fd0 bs by (simp add: sys_read_def bytes_def)
  have c: "consumed s = written s"
    using assms(1) True by (simp add: relay_inv_def pending_def)
  show ?thesis
    using True assms(1,3) len c
    by (simp add: fill_def got ret_val_def ASSERT_NONNEG_size_t_def Let_def of_nat64_eq_0
          relay_inv_def in_bounds_def pending_def BUFFER_SIZE_def destination_polled_def
          unat_of_nat64)
qed


lemma relay_inv_safe: "relay_inv s \<Longrightarrow> safe info s"
  by (simp add: relay_inv_def safe_def)

lemma relay_inv_run_inv: "relay_inv s \<Longrightarrow> run_inv info s"
  by (simp add: relay_inv_def run_inv_def)

lemma hung_run_inv: "hung s \<Longrightarrow> run_inv info s"
  by (simp add: hung_def run_inv_def)

lemma run_inv_safe: "run_inv info s \<Longrightarrow> safe info s"
  by (auto simp: run_inv_def safe_def)

lemma write_buffer_good:
  assumes "relay_inv s" "0 \<le> sint (fd (poll_fds_1 s))" "io_ok e"
  shows "good info (write_buffer e s)"
proof -
  from assms(3) obtain r where r: "write_res e = Write_Room r"
    by (cases "write_res e") (auto simp: io_ok_def)
  define k where "k = min (unat (buffer_length s)) r"
  define off where "off = unat (buffer_offset s)"
  define len where "len = unat (buffer_length s)"
  have acc: "sys_write (fd (poll_fds_1 s)) len (write_res e) = Some k"
    using assms(2) r by (simp add: sys_write_def k_def len_def)
  have b: "length (buffer s) < 2 ^ 63" "off + len \<le> length (buffer s)" "k \<le> len"
    using assms(1) by (auto simp: relay_inv_def in_bounds_def BUFFER_SIZE_def k_def off_def len_def)
  have c: "consumed s = written s @ take len (drop off (buffer s))"
    using assms(1) by (simp add: relay_inv_def pending_def off_def len_def)
  have u1: "unat (buffer_offset s + of_nat k) = off + k"
    using b by (simp add: unat_add_of_nat64 off_def)
  have u2: "unat (buffer_length s - of_nat k) = len - k"
    using b by (simp add: unat_sub_of_nat64 len_def)
  have sp: "take len (drop off (buffer s))
             = take k (drop off (buffer s)) @ take (len - k) (drop (off + k) (buffer s))"
    using b(3) by (simp add: take_split [of k len] add.commute)
  have no_overrun: "\<not> length (buffer s) < off + k" using b by simp
  show ?thesis
  proof (cases "fsync_ret e = 0")
    case True
    then show ?thesis
      using b c u1 u2 sp no_overrun
      by (simp add: write_buffer_def acc ret_val_def ASSERT_NONNEG_size_t_def do_fsync_def
            ASSERT_ZERO_def Let_def BUFFER_SIZE_def run_inv_def in_bounds_def pending_def
            off_def [symmetric] len_def [symmetric])
  next
    case False
    then show ?thesis
      using c sp no_overrun
      by (simp add: write_buffer_def acc ret_val_def ASSERT_NONNEG_size_t_def do_fsync_def
            ASSERT_ZERO_def ASSERT_fails_def Let_def BUFFER_SIZE_def safe_def
            off_def [symmetric] len_def [symmetric])
  qed
qed


lemma write_eot_good:
  assumes "relay_inv s" "buffer_length s = 0" "0 \<le> sint (fd (poll_fds_1 s))" "io_ok e"
  shows "good info (write_eot info e s)"
proof -
  from assms(4) obtain r where r: "write_res e = Write_Room r"
    by (cases "write_res e") (auto simp: io_ok_def)
  have acc: "sys_write (fd (poll_fds_1 s)) n (write_res e) = Some (min n r)" for n
    using assms(3) r by (simp add: sys_write_def)
  have c: "consumed s = written s" "in_bounds s"
    using assms(1,2) by (simp_all add: relay_inv_def pending_def)
  have nonneg: "ASSERT_NONNEG_ssize_t (ret_val (Some (min n r)))" if "n \<le> 1" for n
  proof -
    from that have "min n r = 0 \<or> min n r = 1" by (auto simp: min_def)
    then show ?thesis by (auto simp: ASSERT_NONNEG_ssize_t_def ret_val_def)
  qed
  have tk: "take (min 1 r) [eot_char] = (if r = 0 then [] else [eot_char])"
    by (cases r) (simp_all add: min_def)
  show ?thesis
    using c assms(2) nonneg [of 0] nonneg [of 1]
    by (auto simp: write_eot_def acc tk do_fsync_def ASSERT_ZERO_def
          ASSERT_fails_def Let_def run_inv_def safe_def closed_def in_bounds_def pending_def
          BUFFER_SIZE_def)
qed

lemma write_eot_hung:
  assumes "hung s"
  shows "good info (write_eot info e s)"
proof -
  have "sys_write (fd (poll_fds_1 s)) n (write_res e) = None" for n
    using assms by (simp add: sys_write_def hung_def)
  then show ?thesis
    using assms
    by (simp add: write_eot_def ret_val_def ASSERT_NONNEG_ssize_t_def ASSERT_fails_def Let_def
          hung_def safe_def)
qed

lemma drain_good:
  assumes "relay_inv s" "destination_polled s" "io_ok e"
  shows "good info (drain info e s)"
  using assms write_buffer_good [of s e info] write_eot_good [of s e info]
  by (auto simp: drain_def destination_polled_def relay_inv_run_inv word_greater_zero_iff)

lemma drain_hung:
  assumes "hung s"
  shows "good info (drain info e s)"
  using assms write_eot_hung [of s info e]
  by (auto simp: drain_def hung_run_inv hung_def closed_def)

lemma ASSERT_fails_good: "safe info s \<Longrightarrow> good info (ASSERT_fails e s)"
  by (simp add: ASSERT_fails_def safe_def)

lemma pump_cycle_good:
  assumes "relay_inv s" "io_ok e"
  shows "good info (pump_cycle info e s)"
proof -
  define s1 where "s1 = source_hangup (do_poll e s)"
  have s1: "relay_inv s1" "source_polled s1" "destination_polled s1"
    using assms(1)
    by (simp_all add: s1_def do_poll_relay source_hangup_relay do_poll_source do_poll_destination
          source_hangup_source source_hangup_destination)
  have after: "good info (case fill e (destination_hangup s1) of
                   Continue s2 \<Rightarrow> drain info e s2 | other \<Rightarrow> other)"
    using destination_hangup_cases [OF s1]
  proof
    assume "relay_inv (destination_hangup s1) \<and> source_polled (destination_hangup s1)
              \<and> destination_polled (destination_hangup s1)"
    then obtain s2 where "fill e (destination_hangup s1) = Continue s2" "relay_inv s2"
        "destination_polled s2"
      using fill_relay [of "destination_hangup s1" e] assms(2) by blast
    then show ?thesis using drain_good [of s2 e info] assms(2) by simp
  next
    assume "hung (destination_hangup s1)"
    then show ?thesis using drain_hung [of "destination_hangup s1" info e]
      by (simp add: fill_hung)
  qed
  have "safe info (do_poll e s)"
    using assms(1) by (simp add: relay_inv_safe do_poll_relay)
  then show ?thesis
    using after by (simp add: pump_cycle_def Let_def ASSERT_fails_good s1_def)
qed

lemma pump_iter_good:
  assumes "run_inv info s" "io_ok e"
  shows "good info (pump_iter info ad e s)"
proof (cases "keep_going s AND lnot ad \<noteq> 0 \<or> buffer_length s \<noteq> 0")
  case True
  define s1 where "s1 = s\<lparr> keep_going := keep_going s AND lnot ad \<rparr>"
  from True have "\<not> closed s" by (auto simp: closed_def)
  with assms(1) have "relay_inv s1"
    by (simp add: run_inv_def relay_inv_def s1_def in_bounds_def pending_def BUFFER_SIZE_def)
  then have "good info (pump_cycle info e s1)" using assms(2) by (rule pump_cycle_good)
  then show ?thesis using True by (simp add: pump_iter_def loop_test_def Let_def s1_def)
next
  case False
  with assms(1) show ?thesis
    by (auto simp: pump_iter_def loop_test_def Let_def run_inv_def closed_def in_bounds_def
          pending_def BUFFER_SIZE_def)
qed

lemma pump_loop_good:
  assumes "run_inv info s" "\<forall>x \<in> set evs. io_ok (snd x)"
  shows "good info (pump_loop info s evs)"
  using assms
proof (induction evs arbitrary: s)
  case Nil
  then show ?case by simp
next
  case (Cons x evs)
  obtain ad e where x: "x = (ad, e)" by (cases x)
  have g: "good info (pump_iter info ad e s)"
    using Cons.prems x by (simp add: pump_iter_good)
  show ?case
  proof (cases "pump_iter info ad e s")
    case (Continue s1)
    with g Cons show ?thesis by (simp add: x)
  qed (use g in \<open>simp_all add: x\<close>)
qed

lemma pump_init_run_inv: "length buf0 < 2 ^ 63 \<Longrightarrow> run_inv info (pump_init info buf0)"
  by (simp add: run_inv_def pump_init_def in_bounds_def pending_def BUFFER_SIZE_def)

subsection \<open>The exit status of main\<close>

lemma mask7: "(127 :: 32 word) = mask 7"
  by (simp add: mask_eq_exp_minus_1)

lemma mask8_shifted: "(0xff00 :: 32 word) = push_bit 8 (mask 8)"
  by (simp add: mask_eq_exp_minus_1 push_bit_eq_mult)

lemma WIFEXITED_exited: "WIFEXITED (wstatus (Child_exited c))"
  unfolding WIFEXITED_def wstatus.simps mask7
  by (rule bit_word_eqI) (auto simp: bit_simps)

lemma WEXITSTATUS_exited: "WEXITSTATUS (wstatus (Child_exited c)) = ucast c"
  unfolding WEXITSTATUS_def wstatus.simps mask8_shifted
  by (rule bit_word_eqI) (auto simp: bit_simps dest: bit_imp_le_length)

lemma WIFEXITED_killed:
  assumes "0 < unat sig" "unat sig < 128"
  shows "\<not> WIFEXITED (wstatus (Child_killed sig core))"
proof -
  let ?k = "(if core then 0x80 else 0) :: 32 word"
  have k: "take_bit 7 ?k = 0" by simp
  have "unat (take_bit 7 (ucast sig :: 32 word)) = take_bit 7 (take_bit 32 (unat sig))"
    by (simp only: unsigned_take_bit_eq unsigned_ucast_eq) simp
  also have "\<dots> = unat sig"
    using assms by (simp add: take_bit_nat_eq_self)
  finally have "take_bit 7 (ucast sig :: 32 word) \<noteq> 0"
    using assms by auto
  then have "take_bit 7 (ucast sig OR ?k) \<noteq> 0"
    by (simp only: take_bit_or k) simp
  then show ?thesis
    unfolding WIFEXITED_def wstatus.simps mask7 by (simp add: take_bit_eq_mask)
qed

lemma run_asserts_pass:
  "list_all snd cs \<Longrightarrow> run_asserts err cs tr k = k (tr @ map fst cs)"
  by (induction cs arbitrary: tr) auto

lemma run_asserts_fail:
  "\<not> list_all snd cs \<Longrightarrow> ending (run_asserts err cs tr k) = Exit_called EXIT_FAILURE"
  by (induction cs arbitrary: tr) auto

lemma setup_calls_pass:
  "1 < sint argc \<Longrightarrow>
   list_all snd (setup_calls sys) \<longleftrightarrow> before_fork_ok argc sys \<and> 0 \<le> sint (fork_ret sys)"
  by (auto simp: setup_calls_def before_fork_ok_def ASSERT_NONNEG_int_def ASSERT_ZERO_def)

lemma child_calls_pass: "list_all snd (child_calls sys) \<longleftrightarrow> child_ok sys"
  by (auto simp: child_calls_def child_ok_def ASSERT_NONNEG_int_def ASSERT_ZERO_def)

lemma parent_calls_pass:
  "list_all snd (parent_calls sys) \<longleftrightarrow> close_fds_ret sys = 0 \<and> 0 \<le> sint (waitpid_ret sys)"
  by (auto simp: parent_calls_def ASSERT_NONNEG_int_def ASSERT_ZERO_def)

lemma main_before_fork_fails:
  assumes "\<not> before_fork_ok argc sys \<or> sint (fork_ret sys) < 0"
  shows "ending (main argc sys) = Exit_called EXIT_FAILURE"
proof (cases "1 < sint argc")
  case False
  then show ?thesis by (simp add: main_def Let_def)
next
  case True
  then have "\<not> list_all snd (setup_calls sys)"
    using assms by (auto simp: setup_calls_pass)
  then show ?thesis using True by (simp add: main_def Let_def run_asserts_fail)
qed

lemma main_after_fork:
  assumes "before_fork_ok argc sys" "0 \<le> sint (fork_ret sys)"
  shows "main argc sys =
     (if fork_ret sys = 0
      then run_asserts (main_errno_text sys) (child_calls sys)
             [Posix_openpt, Grantpt, Unlockpt, Open_ptsname, Fork]
             (\<lambda>tr. case execvp_ret sys of
                  None \<Rightarrow> \<lparr> ending = Image_replaced, main_calls = tr @ [Execvp], main_stderr = [] \<rparr>
                | Some r \<Rightarrow> run_asserts (main_errno_text sys) [(Execvp, ASSERT_ZERO r)] tr
                    (\<lambda>tr. \<lparr> ending = Returned EXIT_FAILURE, main_calls = tr, main_stderr = [] \<rparr>))
      else run_asserts (main_errno_text sys) (parent_calls sys)
             [Posix_openpt, Grantpt, Unlockpt, Open_ptsname, Fork]
             (\<lambda>tr. case pumps sys of
                  Pumps_hang \<Rightarrow> \<lparr> ending = Never_returns, main_calls = tr @ [Pthread_join 0],
                                  main_stderr = [] \<rparr>
                | Pump_exits diag \<Rightarrow> \<lparr> ending = Exit_called EXIT_FAILURE,
                                       main_calls = tr @ [Pthread_join 0], main_stderr = diag \<rparr>
                | Pumps_return \<Rightarrow>
                    run_asserts (main_errno_text sys) [(Close_fdm, ASSERT_ZERO (close_fdm_ret sys))]
                      (tr @ [Pthread_join 0, Pthread_join 1])
                      (\<lambda>tr. \<lparr> ending = Returned (if WIFEXITED (wait_status sys)
                                                     then WEXITSTATUS (wait_status sys)
                                                     else EXIT_FAILURE),
                              main_calls = tr, main_stderr = [] \<rparr>)))"
proof -
  have a: "1 < sint argc" using assms(1) by (simp add: before_fork_ok_def)
  have "list_all snd (setup_calls sys)" using assms a by (simp add: setup_calls_pass)
  then have "run_asserts err (setup_calls sys) [] k
              = k [Posix_openpt, Grantpt, Unlockpt, Open_ptsname, Fork]" for err k
    by (simp add: run_asserts_pass) (simp add: setup_calls_def)
  then show ?thesis using a unfolding main_def Let_def by simp
qed

lemma main_parent_returns:
  assumes "before_fork_ok argc sys" "parent_ok sys"
  shows "main argc sys =
           \<lparr> ending = Returned (if WIFEXITED (wait_status sys) then WEXITSTATUS (wait_status sys)
                                else EXIT_FAILURE),
             main_calls = [Posix_openpt, Grantpt, Unlockpt, Open_ptsname, Fork, Pthread_create 0,
                           Pthread_create 1, Close_fds, Waitpid, Pthread_join 0, Pthread_join 1,
                           Close_fdm],
             main_stderr = [] \<rparr>"
proof -
  have f: "0 \<le> sint (fork_ret sys)" "fork_ret sys \<noteq> 0"
    using assms(2) by (auto simp: parent_ok_def)
  have p: "list_all snd (parent_calls sys)"
    using assms(2) by (simp add: parent_calls_pass parent_ok_def)
  show ?thesis
    using assms(2) f(2)
    by (simp add: main_after_fork [OF assms(1) f(1)] run_asserts_pass [OF p] parent_ok_def
          ASSERT_ZERO_def)
       (simp add: parent_calls_def)
qed

lemma main_parent_fails:
  assumes "before_fork_ok argc sys" "0 < sint (fork_ret sys)" "\<not> parent_ok sys"
    and "pumps sys = Pumps_hang \<longrightarrow> close_fds_ret sys \<noteq> 0 \<or> sint (waitpid_ret sys) < 0"
  shows "ending (main argc sys) = Exit_called EXIT_FAILURE"
proof -
  have f: "0 \<le> sint (fork_ret sys)" "fork_ret sys \<noteq> 0" using assms(2) by auto
  show ?thesis
  proof (cases "list_all snd (parent_calls sys)")
    case False
    then show ?thesis
      using f(2) by (simp add: main_after_fork [OF assms(1) f(1)] run_asserts_fail)
  next
    case True
    then have c: "close_fds_ret sys = 0" "0 \<le> sint (waitpid_ret sys)"
      by (simp_all add: parent_calls_pass)
    then have "pumps sys \<noteq> Pumps_hang" using assms(4) by auto
    moreover have "pumps sys = Pumps_return \<longrightarrow> close_fdm_ret sys \<noteq> 0"
      using assms(2,3) c by (simp add: parent_ok_def)
    ultimately show ?thesis
      using f(2)
      by (cases "pumps sys")
         (simp_all add: main_after_fork [OF assms(1) f(1)] run_asserts_pass [OF True]
            ASSERT_ZERO_def)
  qed
qed

lemma main_parent_hangs:
  assumes "before_fork_ok argc sys" "0 < sint (fork_ret sys)" "close_fds_ret sys = 0"
    "0 \<le> sint (waitpid_ret sys)" "pumps sys = Pumps_hang"
  shows "ending (main argc sys) = Never_returns"
proof -
  have f: "0 \<le> sint (fork_ret sys)" "fork_ret sys \<noteq> 0" using assms(2) by auto
  have p: "list_all snd (parent_calls sys)" using assms(3,4) by (simp add: parent_calls_pass)
  show ?thesis
    using f(2) assms(5) by (simp add: main_after_fork [OF assms(1) f(1)] run_asserts_pass [OF p])
qed

lemma main_child_fails:
  assumes "before_fork_ok argc sys" "fork_ret sys = 0"
    and "\<not> child_ok sys \<or> (\<exists>r. execvp_ret sys = Some r \<and> r \<noteq> 0)"
  shows "ending (main argc sys) = Exit_called EXIT_FAILURE"
proof -
  have f: "0 \<le> sint (fork_ret sys)" using assms(2) by simp
  show ?thesis
  proof (cases "child_ok sys")
    case False
    then show ?thesis
      using assms(2)
      by (simp add: main_after_fork [OF assms(1) f] run_asserts_fail child_calls_pass)
  next
    case True
    then obtain r where "execvp_ret sys = Some r" "r \<noteq> 0" using assms(3) by auto
    then show ?thesis
      using assms(2) True
      by (simp add: main_after_fork [OF assms(1) f] run_asserts_pass child_calls_pass
            ASSERT_ZERO_def)
  qed
qed

lemma main_child_execs:
  assumes "before_fork_ok argc sys" "fork_ret sys = 0" "child_ok sys" "execvp_ret sys = None"
  shows "main argc sys =
           \<lparr> ending = Image_replaced,
             main_calls = [Posix_openpt, Grantpt, Unlockpt, Open_ptsname, Fork, Isastream]
               @ (if isastream_fds sys \<noteq> 0 then [Ioctl_push ''ptem'', Ioctl_push ''ldterm''] else [])
               @ [Tcgetattr, Cfmakeraw, Tcsetattr, Setsid, Dup2 0, Dup2 1, Dup2 2, Close_fdm,
                  Close_fds, Ioctl_tiocsctty, Execvp],
             main_stderr = [] \<rparr>"
proof -
  have f: "0 \<le> sint (fork_ret sys)" using assms(2) by simp
  show ?thesis
    using assms(2-4)
    by (simp add: main_after_fork [OF assms(1) f] run_asserts_pass child_calls_pass)
       (simp add: child_calls_def STDIN_FILENO_def STDOUT_FILENO_def)
qed


text \<open>
  Claim C2, as amended. When a command was given, every call \<open>main\<close> asserts in the parent
  succeeds (the last \<open>close\<close> of the master included) and both pumps return, then for a
  child that has exited with a code \<open>main\<close> returns that code, and for a child killed by a
  signal it returns \<open>EXIT_FAILURE\<close>. When the command is missing, or a call fails before
  the fork, in the fork or in the parent, or a pump ends the process, the process exits
  with \<open>EXIT_FAILURE\<close>, whatever the child did; only when a pump never returns does \<open>main\<close>
  not end. In the child a failed set-up call, or an \<open>execvp\<close> that returns, exits with
  \<open>EXIT_FAILURE\<close>; otherwise the command replaces the program. \<open>EXIT_FAILURE\<close> is 1.
\<close>

theorem main_exit_status:
  "(before_fork_ok argc sys \<and> parent_ok sys \<and> wait_status sys = wstatus (Child_exited code)
      \<longrightarrow> main argc sys =
            \<lparr> ending = Returned (ucast code),
              main_calls = [Posix_openpt, Grantpt, Unlockpt, Open_ptsname, Fork, Pthread_create 0,
                            Pthread_create 1, Close_fds, Waitpid, Pthread_join 0, Pthread_join 1,
                            Close_fdm],
              main_stderr = [] \<rparr>)
   \<and> (before_fork_ok argc sys \<and> parent_ok sys
        \<and> wait_status sys = wstatus (Child_killed sig core) \<and> 0 < unat sig \<and> unat sig < 128
      \<longrightarrow> ending (main argc sys) = Returned EXIT_FAILURE)
   \<and> (\<not> before_fork_ok argc sys \<or> sint (fork_ret sys) < 0
      \<longrightarrow> ending (main argc sys) = Exit_called EXIT_FAILURE)
   \<and> (before_fork_ok argc sys \<and> 0 < sint (fork_ret sys) \<and> \<not> parent_ok sys
        \<and> (pumps sys = Pumps_hang \<longrightarrow> close_fds_ret sys \<noteq> 0 \<or> sint (waitpid_ret sys) < 0)
      \<longrightarrow> ending (main argc sys) = Exit_called EXIT_FAILURE)
   \<and> (before_fork_ok argc sys \<and> 0 < sint (fork_ret sys) \<and> close_fds_ret sys = 0
        \<and> 0 \<le> sint (waitpid_ret sys) \<and> pumps sys = Pumps_hang
      \<longrightarrow> ending (main argc sys) = Never_returns)
   \<and> (before_fork_ok argc sys \<and> fork_ret sys = 0
        \<and> (\<not> child_ok sys \<or> (\<exists>r. execvp_ret sys = Some r \<and> r \<noteq> 0))
      \<longrightarrow> ending (main argc sys) = Exit_called EXIT_FAILURE)
   \<and> (before_fork_ok argc sys \<and> fork_ret sys = 0 \<and> child_ok sys \<and> execvp_ret sys = None
      \<longrightarrow> main argc sys =
            \<lparr> ending = Image_replaced,
              main_calls = [Posix_openpt, Grantpt, Unlockpt, Open_ptsname, Fork, Isastream]
                @ (if isastream_fds sys \<noteq> 0 then [Ioctl_push ''ptem'', Ioctl_push ''ldterm'']
                   else [])
                @ [Tcgetattr, Cfmakeraw, Tcsetattr, Setsid, Dup2 0, Dup2 1, Dup2 2, Close_fdm,
                   Close_fds, Ioctl_tiocsctty, Execvp],
              main_stderr = [] \<rparr>)
   \<and> EXIT_FAILURE = 1"
proof (intro conjI impI)
  assume "before_fork_ok argc sys \<and> parent_ok sys \<and> wait_status sys = wstatus (Child_exited code)"
  then show "main argc sys =
            \<lparr> ending = Returned (ucast code),
              main_calls = [Posix_openpt, Grantpt, Unlockpt, Open_ptsname, Fork, Pthread_create 0,
                            Pthread_create 1, Close_fds, Waitpid, Pthread_join 0, Pthread_join 1,
                            Close_fdm],
              main_stderr = [] \<rparr>"
    using main_parent_returns [of argc sys] WIFEXITED_exited [of code] WEXITSTATUS_exited [of code]
    by (simp del: wstatus.simps)
next
  assume "before_fork_ok argc sys \<and> parent_ok sys
        \<and> wait_status sys = wstatus (Child_killed sig core) \<and> 0 < unat sig \<and> unat sig < 128"
  then show "ending (main argc sys) = Returned EXIT_FAILURE"
    using main_parent_returns [of argc sys] WIFEXITED_killed [of sig core]
    by (simp del: wstatus.simps)
next
  assume "\<not> before_fork_ok argc sys \<or> sint (fork_ret sys) < 0"
  then show "ending (main argc sys) = Exit_called EXIT_FAILURE"
    by (rule main_before_fork_fails)
next
  assume "before_fork_ok argc sys \<and> 0 < sint (fork_ret sys) \<and> \<not> parent_ok sys
        \<and> (pumps sys = Pumps_hang \<longrightarrow> close_fds_ret sys \<noteq> 0 \<or> sint (waitpid_ret sys) < 0)"
  then show "ending (main argc sys) = Exit_called EXIT_FAILURE"
    using main_parent_fails [of argc sys] by blast
next
  assume "before_fork_ok argc sys \<and> 0 < sint (fork_ret sys) \<and> close_fds_ret sys = 0
        \<and> 0 \<le> sint (waitpid_ret sys) \<and> pumps sys = Pumps_hang"
  then show "ending (main argc sys) = Never_returns"
    using main_parent_hangs [of argc sys] by blast
next
  assume "before_fork_ok argc sys \<and> fork_ret sys = 0
        \<and> (\<not> child_ok sys \<or> (\<exists>r. execvp_ret sys = Some r \<and> r \<noteq> 0))"
  then show "ending (main argc sys) = Exit_called EXIT_FAILURE"
    using main_child_fails [of argc sys] by blast
next
  assume "before_fork_ok argc sys \<and> fork_ret sys = 0 \<and> child_ok sys \<and> execvp_ret sys = None"
  then show "main argc sys =
            \<lparr> ending = Image_replaced,
              main_calls = [Posix_openpt, Grantpt, Unlockpt, Open_ptsname, Fork, Isastream]
                @ (if isastream_fds sys \<noteq> 0 then [Ioctl_push ''ptem'', Ioctl_push ''ldterm'']
                   else [])
                @ [Tcgetattr, Cfmakeraw, Tcsetattr, Setsid, Dup2 0, Dup2 1, Dup2 2, Close_fdm,
                   Close_fds, Ioctl_tiocsctty, Execvp],
              main_stderr = [] \<rparr>"
    using main_child_execs [of argc sys] by blast
next
  show "EXIT_FAILURE = 1" by (simp add: EXIT_FAILURE_def)
qed

lemmas main_unfold =
  before_fork_ok_def parent_ok_def child_ok_def sys_fine_def sys_pump_dies_def
  sys_close_fails_def

theorem main_exit_status_witness:
  "before_fork_ok 2 (sys_fine (wstatus (Child_exited 7)))
   \<and> parent_ok (sys_fine (wstatus (Child_exited 7)))
   \<and> main 2 (sys_fine (wstatus (Child_exited 7))) =
        \<lparr> ending = Returned 7,
          main_calls = [Posix_openpt, Grantpt, Unlockpt, Open_ptsname, Fork, Pthread_create 0,
                        Pthread_create 1, Close_fds, Waitpid, Pthread_join 0, Pthread_join 1,
                        Close_fdm],
          main_stderr = [] \<rparr>
   \<and> ending (main 2 (sys_fine (wstatus (Child_killed 9 False)))) = Returned 1
   \<and> \<not> before_fork_ok 2 ((sys_fine 0)\<lparr> grantpt_ret := - 1 \<rparr>)
   \<and> ending (main 2 ((sys_fine 0)\<lparr> grantpt_ret := - 1 \<rparr>)) = Exit_called 1
   \<and> \<not> parent_ok sys_pump_dies
   \<and> ending (main 2 sys_pump_dies) = Exit_called 1
   \<and> ending (main 2 ((sys_fine 0)\<lparr> pumps := Pumps_hang \<rparr>)) = Never_returns
   \<and> \<not> child_ok ((sys_fine 0)\<lparr> fork_ret := 0, tcsetattr_ret := - 1 \<rparr>)
   \<and> ending (main 2 ((sys_fine 0)\<lparr> fork_ret := 0, tcsetattr_ret := - 1 \<rparr>)) = Exit_called 1
   \<and> child_ok ((sys_fine 0)\<lparr> fork_ret := 0 \<rparr>)
   \<and> main 2 ((sys_fine 0)\<lparr> fork_ret := 0 \<rparr>) =
        \<lparr> ending = Image_replaced,
          main_calls = [Posix_openpt, Grantpt, Unlockpt, Open_ptsname, Fork, Isastream,
                        Tcgetattr, Cfmakeraw, Tcsetattr, Setsid, Dup2 0, Dup2 1, Dup2 2,
                        Close_fdm, Close_fds, Ioctl_tiocsctty, Execvp],
          main_stderr = [] \<rparr>"
proof -
  have ok: "before_fork_ok 2 (sys_fine st)" "parent_ok (sys_fine st)"
    "wait_status (sys_fine st) = st" for st
    by (simp_all add: main_unfold)
  have bad: "\<not> before_fork_ok 2 ((sys_fine 0)\<lparr> grantpt_ret := - 1 \<rparr>)"
    by (simp add: main_unfold)
  have dies: "before_fork_ok 2 sys_pump_dies" "0 < sint (fork_ret sys_pump_dies)"
    "\<not> parent_ok sys_pump_dies" "pumps sys_pump_dies \<noteq> Pumps_hang"
    by (simp_all add: main_unfold)
  have hang: "before_fork_ok 2 ((sys_fine 0)\<lparr> pumps := Pumps_hang \<rparr>)"
    "0 < sint (fork_ret ((sys_fine 0)\<lparr> pumps := Pumps_hang \<rparr>))"
    "close_fds_ret ((sys_fine 0)\<lparr> pumps := Pumps_hang \<rparr>) = 0"
    "0 \<le> sint (waitpid_ret ((sys_fine 0)\<lparr> pumps := Pumps_hang \<rparr>))"
    "pumps ((sys_fine 0)\<lparr> pumps := Pumps_hang \<rparr>) = Pumps_hang"
    by (simp_all add: main_unfold)
  have cbad: "before_fork_ok 2 ((sys_fine 0)\<lparr> fork_ret := 0, tcsetattr_ret := - 1 \<rparr>)"
    "fork_ret ((sys_fine 0)\<lparr> fork_ret := 0, tcsetattr_ret := - 1 \<rparr>) = 0"
    "\<not> child_ok ((sys_fine 0)\<lparr> fork_ret := 0, tcsetattr_ret := - 1 \<rparr>)"
    by (simp_all add: main_unfold)
  have cok: "before_fork_ok 2 ((sys_fine 0)\<lparr> fork_ret := 0 \<rparr>)"
    "fork_ret ((sys_fine 0)\<lparr> fork_ret := 0 \<rparr>) = 0"
    "child_ok ((sys_fine 0)\<lparr> fork_ret := 0 \<rparr>)"
    "execvp_ret ((sys_fine 0)\<lparr> fork_ret := 0 \<rparr>) = None"
    "isastream_fds ((sys_fine 0)\<lparr> fork_ret := 0 \<rparr>) = 0"
    by (simp_all add: main_unfold)
  have k: "0 < unat (9 :: byte)" "unat (9 :: byte) < 128" by simp_all
  show ?thesis
    using main_exit_status [where argc = 2 and sys = "sys_fine (wstatus (Child_exited 7))"
        and code = 7 and sig = 9 and core = False]
      main_exit_status [where argc = 2 and sys = "sys_fine (wstatus (Child_killed 9 False))"
        and code = 7 and sig = 9 and core = False]
      main_exit_status [where argc = 2 and sys = "(sys_fine 0)\<lparr> grantpt_ret := - 1 \<rparr>"
        and code = 7 and sig = 9 and core = False]
      main_exit_status [where argc = 2 and sys = sys_pump_dies
        and code = 7 and sig = 9 and core = False]
      main_exit_status [where argc = 2 and sys = "(sys_fine 0)\<lparr> pumps := Pumps_hang \<rparr>"
        and code = 7 and sig = 9 and core = False]
      main_exit_status [where argc = 2
        and sys = "(sys_fine 0)\<lparr> fork_ret := 0, tcsetattr_ret := - 1 \<rparr>"
        and code = 7 and sig = 9 and core = False]
      main_exit_status [where argc = 2 and sys = "(sys_fine 0)\<lparr> fork_ret := 0 \<rparr>"
        and code = 7 and sig = 9 and core = False]
      ok bad dies hang cbad cok k
    by (simp del: wstatus.simps)
qed

text \<open>
  Claim C2 as stated fails when the child exits normally and the session does not run to
  its end: the child exits with 7 and a pump fails an assertion, or the last \<open>close\<close> of
  the master fails, and the exit status of the program is 1.
\<close>

theorem child_code_not_returned_counterexample:
  "before_fork_ok 2 sys_pump_dies
   \<and> WIFEXITED (wait_status sys_pump_dies) \<and> WEXITSTATUS (wait_status sys_pump_dies) = 7
   \<and> main 2 sys_pump_dies =
        \<lparr> ending = Exit_called 1,
          main_calls = [Posix_openpt, Grantpt, Unlockpt, Open_ptsname, Fork, Pthread_create 0,
                        Pthread_create 1, Close_fds, Waitpid, Pthread_join 0],
          main_stderr = ''terminator: Invalid argument'' @ [CHR 0x0A] \<rparr>
   \<and> WIFEXITED (wait_status sys_close_fails) \<and> WEXITSTATUS (wait_status sys_close_fails) = 7
   \<and> exit_status (ending (main 2 sys_close_fails)) = Some 1
   \<and> main_calls (main 2 sys_close_fails) =
        [Posix_openpt, Grantpt, Unlockpt, Open_ptsname, Fork, Pthread_create 0,
         Pthread_create 1, Close_fds, Waitpid, Pthread_join 0, Pthread_join 1, Close_fdm]"
  by (simp add: main_unfold main_def Let_def setup_calls_def parent_calls_def
        ASSERT_NONNEG_int_def ASSERT_ZERO_def EXIT_FAILURE_def WIFEXITED_def WEXITSTATUS_def)

text \<open>
  Claim C10. Called with no command (\<open>argc\<close> not above one), \<open>main\<close> prints
  \<open>terminator: Insufficient command line arguments\<close> on standard error and exits with
  \<open>EXIT_FAILURE\<close> having made no call at all: no pseudo-terminal is opened, no child forked.
\<close>

theorem main_without_command:
  assumes "\<not> 1 < sint argc"
  shows "main argc sys =
           \<lparr> ending = Exit_called EXIT_FAILURE, main_calls = [],
             main_stderr = ''terminator: Insufficient command line arguments'' @ [CHR 0x0A] \<rparr>
         \<and> Posix_openpt \<notin> set (main_calls (main argc sys))
         \<and> Fork \<notin> set (main_calls (main argc sys))"
  using assms
  by (simp add: main_def Let_def ASSERT_WITH_MESSAGE_output_def ASSERT_PRINT_PROGRAM_NAME_def
        ASSERT_PROGRAM_NAME_def)

theorem main_without_command_witness:
  "\<not> 1 < sint (1 :: c_int)
   \<and> main 1 (sys_fine 0) =
       \<lparr> ending = Exit_called 1, main_calls = [],
         main_stderr = ''terminator: Insufficient command line arguments'' @ [CHR 0x0A] \<rparr>"
  using main_without_command [of 1 "sys_fine 0"] by (simp add: EXIT_FAILURE_def)

subsection \<open>Evaluating the pump on concrete events\<close>

lemmas pump_unfold =
  pump_init_def pump_iter_def loop_test_def lnot_def pump_cycle_def do_poll_def
  source_hangup_def destination_hangup_def fill_def drain_def write_buffer_def write_eot_def
  do_fsync_def ASSERT_fails_def sys_read_def sys_write_def ret_val_def poll_revents_def
  BUFFER_SIZE_def ASSERT_NONNEG_int_def ASSERT_NONNEG_size_t_def ASSERT_NONNEG_ssize_t_def
  ASSERT_ZERO_def POLLIN_def POLLOUT_def POLLHUP_def eot_char_def ASSERT_output_def
  ASSERT_PRINT_PROGRAM_NAME_def ASSERT_PROGRAM_NAME_def Let_def

lemmas event_unfold =
  idle_def readable_def writable_def both_ready_def destination_gone_def reader_start_def
  reader_info_def writer_info_def STDIN_FILENO_def STDOUT_FILENO_def read_fails_def
  write_fails_def writer_start_def destination_gone_writable_def

subsection \<open>Bytes are relayed in order\<close>

lemma write_buffer_advances:
  assumes "relay_inv s" "0 \<le> sint (fd (poll_fds_1 s))" "io_ok e"
    and "write_buffer e s = Continue s'"
  shows "unat (buffer_offset s) \<le> unat (buffer_offset s')
       \<and> written s' = written s @ take (unat (buffer_offset s') - unat (buffer_offset s))
                                      (drop (unat (buffer_offset s)) (buffer s))"
proof -
  from assms(3) obtain r where r: "write_res e = Write_Room r"
    by (cases "write_res e") (auto simp: io_ok_def)
  define k where "k = min (unat (buffer_length s)) r"
  define off where "off = unat (buffer_offset s)"
  define len where "len = unat (buffer_length s)"
  have acc: "sys_write (fd (poll_fds_1 s)) len (write_res e) = Some k"
    using assms(2) r by (simp add: sys_write_def k_def len_def)
  have b: "length (buffer s) < 2 ^ 63" "off + len \<le> length (buffer s)" "k \<le> len"
    using assms(1) by (auto simp: relay_inv_def in_bounds_def BUFFER_SIZE_def k_def off_def len_def)
  have u1: "unat (buffer_offset s + of_nat k) = off + k"
    using b by (simp add: unat_add_of_nat64 off_def)
  have no_overrun: "\<not> length (buffer s) < off + k" using b by simp
  have "s' = s\<lparr> written := written s @ take k (drop off (buffer s)),
                calls := calls s @ [Write (fd (poll_fds_1 s)) (Buffer_plus (buffer_offset s))
                                      (buffer_length s), Fsync (fd (poll_fds_1 s))],
                buffer_offset := buffer_offset s + of_nat k,
                buffer_length := buffer_length s - of_nat k \<rparr>"
    using assms(4) no_overrun
    by (simp add: write_buffer_def acc ret_val_def ASSERT_NONNEG_size_t_def do_fsync_def
          ASSERT_ZERO_def ASSERT_fails_def Let_def BUFFER_SIZE_def
          off_def [symmetric] len_def [symmetric] split: if_splits)
  then show ?thesis
    using u1 by (simp add: off_def [symmetric])
qed

text \<open>
  Claim C1, as amended. Take any pump and any run in which no \<open>read\<close> and no \<open>write\<close>
  reports an error. No \<open>write\<close> is ever handed bytes from outside the buffer. At every
  moment the bytes the destination has accepted are a beginning of the bytes read from
  the source, in the same order, with no gap and no repetition, or, for a pump that sends
  the end-of-transmission byte, all of them followed by that one byte. When the loop is
  left and the destination has not hung up, every byte read has been written. Each
  \<open>write\<close> of buffered bytes moves \<open>buffer_offset\<close> forward and passes on exactly the bytes
  between the old and the new offset.
\<close>

theorem pump_relays_in_order:
  assumes "length buf0 < 2 ^ 63" and "list_all (\<lambda>x. io_ok (snd x)) evs"
    and "out = pump_loop info (pump_init info buf0) evs" and "s = state_of out"
  shows "out \<noteq> Overrun s
       \<and> (prefix (written s) (consumed s)
          \<or> (send_eot info \<noteq> 0 \<and> written s = consumed s @ [eot_char]))
       \<and> (out = Finished s \<and> fd (poll_fds_1 s) \<noteq> - 1
            \<longrightarrow> written s = consumed s
                \<or> (send_eot info \<noteq> 0 \<and> written s = consumed s @ [eot_char]))
       \<and> (relay_inv t \<and> 0 \<le> sint (fd (poll_fds_1 t)) \<and> io_ok e
            \<and> write_buffer e t = Continue t'
            \<longrightarrow> unat (buffer_offset t) \<le> unat (buffer_offset t')
                \<and> written t' = written t @ take (unat (buffer_offset t') - unat (buffer_offset t))
                                               (drop (unat (buffer_offset t)) (buffer t)))"
proof -
  have "good info out"
    using assms(1,2) unfolding assms(3)
    by (intro pump_loop_good pump_init_run_inv) (simp_all add: list_all_iff)
  then have "out \<noteq> Overrun s
       \<and> (prefix (written s) (consumed s)
          \<or> (send_eot info \<noteq> 0 \<and> written s = consumed s @ [eot_char]))
       \<and> (out = Finished s \<and> fd (poll_fds_1 s) \<noteq> - 1
            \<longrightarrow> written s = consumed s
                \<or> (send_eot info \<noteq> 0 \<and> written s = consumed s @ [eot_char]))"
    using assms(4)
    by (cases out) (auto simp: run_inv_def safe_def closed_def pending_def)
  then show ?thesis
    using write_buffer_advances [of t e t'] by blast
qed

lemma filled_eq:
  "filled = \<lparr> keep_going = 1, found_eof = 0,
     poll_fds_0 = \<lparr> fd = 0, events = 1, revents = 1 \<rparr>,
     poll_fds_1 = \<lparr> fd = 3, events = 4, revents = 0 \<rparr>,
     buffer = [104, 105, 106, 0, 0, 0, 0, 0], buffer_length = 3,
     buffer_offset = 0, consumed = [104, 105, 106], written = [],
     calls = [Poll, Read 0 8], stderr = [] \<rparr>"
  by (simp add: filled_def pump_unfold event_unfold)

theorem pump_relays_in_order_witness:
  "length [0, 0, 0, 0, 0, 0, 0, 0 :: byte] < 2 ^ 63
   \<and> list_all (\<lambda>x. io_ok (snd x)) eot_run
   \<and> written (state_of (pump_loop (reader_info 3) (pump_init (reader_info 3) [0, 0, 0, 0, 0, 0, 0, 0]) eot_run))
       = consumed (state_of (pump_loop (reader_info 3) (pump_init (reader_info 3) [0, 0, 0, 0, 0, 0, 0, 0]) eot_run))
           @ [eot_char]
   \<and> relay_inv filled \<and> io_ok (writable 2)
   \<and> write_buffer (writable 2) filled = Continue (state_of (write_buffer (writable 2) filled))
   \<and> unat (buffer_offset (state_of (write_buffer (writable 2) filled))) = 2
   \<and> written (state_of (write_buffer (writable 2) filled)) = [104, 105]"
proof -
  have h1: "length [0, 0, 0, 0, 0, 0, 0, 0 :: byte] < 2 ^ 63" by simp
  have h2: "list_all (\<lambda>x. io_ok (snd x)) eot_run"
    by (simp add: eot_run_def io_ok_def event_unfold)
  have h3: "relay_inv filled" "0 \<le> sint (fd (poll_fds_1 filled))" "io_ok (writable 2)"
    by (simp_all add: filled_eq relay_inv_def in_bounds_def pending_def BUFFER_SIZE_def io_ok_def
          event_unfold)
  have h4: "write_buffer (writable 2) filled = Continue (state_of (write_buffer (writable 2) filled))"
    by (simp add: filled_eq pump_unfold event_unfold)
  have ev: "written (state_of (pump_loop (reader_info 3) (pump_init (reader_info 3) [0, 0, 0, 0, 0, 0, 0, 0]) eot_run)) = [104, 105, 4]"
     "consumed (state_of (pump_loop (reader_info 3) (pump_init (reader_info 3) [0, 0, 0, 0, 0, 0, 0, 0]) eot_run)) = [104, 105]"
    by (simp_all add: eot_run_def pump_unfold event_unfold)
  have ev2: "unat (buffer_offset (state_of (write_buffer (writable 2) filled))) = 2"
     "written (state_of (write_buffer (writable 2) filled)) = [104, 105]"
    by (simp_all add: filled_eq pump_unfold event_unfold)
  show ?thesis
    using pump_relays_in_order [OF h1 h2 refl refl, of "reader_info 3" filled "writable 2"
        "state_of (write_buffer (writable 2) filled)"] h1 h2 h3 h4 ev ev2
    by (simp add: eot_char_def)
qed

text \<open>
  Claim C1 as stated fails in two runs of the pump from standard input to the PTY. In the
  first the bytes \<open>104, 105\<close> are read and \<open>104, 105, 4\<close> written: the pump appends the
  end-of-transmission byte, which it never read. In the second the destination hangs up
  while the two bytes read are still in the buffer, and they are never written.
\<close>

theorem written_equals_consumed_counterexample:
  "pump_loop (reader_info 3) reader_start eot_run
     = Finished (state_of (pump_loop (reader_info 3) reader_start eot_run))
   \<and> consumed (state_of (pump_loop (reader_info 3) reader_start eot_run)) = [104, 105]
   \<and> written (state_of (pump_loop (reader_info 3) reader_start eot_run)) = [104, 105, 4]
   \<and> pump_loop (reader_info 3) reader_start hangup_run
     = Finished (state_of (pump_loop (reader_info 3) reader_start hangup_run))
   \<and> consumed (state_of (pump_loop (reader_info 3) reader_start hangup_run)) = [104, 105]
   \<and> written (state_of (pump_loop (reader_info 3) reader_start hangup_run)) = []"
  by (simp add: eot_run_def hangup_run_def pump_unfold event_unfold)

subsection \<open>The transfer buffer\<close>

lemma run_inv_buffer_inv: "run_inv info s \<Longrightarrow> buffer_inv s"
  by (auto simp: run_inv_def buffer_inv_def)

lemma buffer_inv_relay: "buffer_inv s \<Longrightarrow> \<not> closed s \<Longrightarrow> relay_inv s"
  by (simp add: buffer_inv_def relay_inv_def)

lemma relay_inv_buffer_inv: "relay_inv s \<Longrightarrow> buffer_inv s"
  by (simp add: buffer_inv_def relay_inv_def)

lemma fill_buffer_inv:
  assumes "buffer_inv s" "source_polled s" "destination_polled s" "io_ok e"
  shows "\<exists>s'. fill e s = Continue s' \<and> buffer_inv s'"
proof (cases "closed s")
  case True
  then have "fill e s = Continue s" by (simp add: fill_def closed_def)
  then show ?thesis using assms(1) by simp
next
  case False
  then show ?thesis
    using fill_relay [of s e] assms buffer_inv_relay [of s] relay_inv_buffer_inv by blast
qed

lemma drain_buffer_inv:
  assumes "buffer_inv s" "destination_polled s" "io_ok e" "drain info e s = Continue s'"
  shows "buffer_inv s'"
proof (cases "closed s")
  case True
  then show ?thesis
    using assms(1,4)
    by (auto simp: drain_def write_eot_def do_fsync_def ASSERT_fails_def Let_def closed_def
          buffer_inv_def in_bounds_def BUFFER_SIZE_def split: if_splits)
next
  case False
  then have "good info (drain info e s)"
    using assms(1-3) by (simp add: drain_good buffer_inv_relay)
  then show ?thesis using assms(4) by (simp add: run_inv_buffer_inv)
qed

lemma pending_length: "in_bounds s \<Longrightarrow> length (pending s) = unat (buffer_length s)"
  by (auto simp: in_bounds_def pending_def BUFFER_SIZE_def)

text \<open>
  Claim C4, as amended. In every state a pump reaches while no \<open>read\<close> and no \<open>write\<close>
  reports an error, \<open>buffer_offset + buffer_length\<close> does not exceed the capacity of the
  buffer, and, as long as the loop can go on, the bytes read and not yet written are
  exactly the \<open>buffer_length\<close> bytes that start at \<open>buffer_offset\<close>: it is \<open>buffer_length\<close>
  that counts what remains to be written, not \<open>buffer_length - buffer_offset\<close>. The fill
  step and the drain step each preserve this invariant.
\<close>

theorem buffer_invariant:
  assumes "length buf0 < 2 ^ 63" and "list_all (\<lambda>x. io_ok (snd x)) evs"
    and "pump_loop info (pump_init info buf0) evs = Continue s"
  shows "unat (buffer_offset s) + unat (buffer_length s) \<le> BUFFER_SIZE s
       \<and> (\<not> closed s \<longrightarrow> consumed s = written s @ pending s
                           \<and> length (pending s) = unat (buffer_length s))
       \<and> buffer_inv s
       \<and> (buffer_inv t \<and> source_polled t \<and> destination_polled t \<and> io_ok e
            \<longrightarrow> (\<exists>t'. fill e t = Continue t' \<and> buffer_inv t'))
       \<and> (buffer_inv t \<and> destination_polled t \<and> io_ok e \<and> drain info e t = Continue t'
            \<longrightarrow> buffer_inv t')"
proof -
  have "good info (pump_loop info (pump_init info buf0) evs)"
    using assms(1,2) by (intro pump_loop_good pump_init_run_inv) (simp_all add: list_all_iff)
  then have b: "buffer_inv s"
    using assms(3) by (simp add: run_inv_buffer_inv)
  then have "unat (buffer_offset s) + unat (buffer_length s) \<le> BUFFER_SIZE s"
      "\<not> closed s \<longrightarrow> consumed s = written s @ pending s
                           \<and> length (pending s) = unat (buffer_length s)"
    by (simp_all add: buffer_inv_def in_bounds_def pending_length)
  then show ?thesis
    using b fill_buffer_inv [of t e] drain_buffer_inv [of t e info t'] by blast
qed

lemma half_sent_eq:
  "half_sent = \<lparr> keep_going = 1, found_eof = 0,
     poll_fds_0 = \<lparr> fd = 0, events = 1, revents = 0 \<rparr>,
     poll_fds_1 = \<lparr> fd = 3, events = 4, revents = 4 \<rparr>,
     buffer = [104, 105, 106, 0, 0, 0, 0, 0], buffer_length = 1,
     buffer_offset = 2, consumed = [104, 105, 106], written = [104, 105],
     calls = [Poll, Read 0 8, Poll, Write 3 (Buffer_plus 0) 3, Fsync 3], stderr = [] \<rparr>"
  by (simp add: half_sent_def partial_run_def pump_unfold event_unfold)

lemma partial_run_Continue:
  "pump_loop (reader_info 3) (pump_init (reader_info 3) [0, 0, 0, 0, 0, 0, 0, 0]) partial_run
     = Continue half_sent"
  by (simp add: half_sent_def partial_run_def pump_unfold event_unfold)

theorem buffer_invariant_witness:
  "length [0, 0, 0, 0, 0, 0, 0, 0 :: byte] < 2 ^ 63
   \<and> list_all (\<lambda>x. io_ok (snd x)) partial_run
   \<and> pump_loop (reader_info 3) (pump_init (reader_info 3) [0, 0, 0, 0, 0, 0, 0, 0]) partial_run
       = Continue half_sent
   \<and> \<not> closed half_sent
   \<and> unat (buffer_offset half_sent) + unat (buffer_length half_sent) \<le> BUFFER_SIZE half_sent
   \<and> consumed half_sent = written half_sent @ pending half_sent
   \<and> pending half_sent = [106]
   \<and> buffer_inv (do_poll (both_ready [107] 8) half_sent)
   \<and> source_polled (do_poll (both_ready [107] 8) half_sent)
   \<and> destination_polled (do_poll (both_ready [107] 8) half_sent)
   \<and> io_ok (both_ready [107] 8)
   \<and> fill (both_ready [107] 8) (do_poll (both_ready [107] 8) half_sent)
       = Continue (do_poll (both_ready [107] 8) half_sent)
   \<and> drain (reader_info 3) (both_ready [107] 8) (do_poll (both_ready [107] 8) half_sent)
       = Continue (state_of (drain (reader_info 3) (both_ready [107] 8)
                               (do_poll (both_ready [107] 8) half_sent)))
   \<and> buffer_inv (state_of (drain (reader_info 3) (both_ready [107] 8)
                               (do_poll (both_ready [107] 8) half_sent)))"
proof -
  let ?e = "both_ready [107] 8"
  let ?t = "do_poll ?e half_sent"
  have h1: "length [0, 0, 0, 0, 0, 0, 0, 0 :: byte] < 2 ^ 63" by simp
  have h2: "list_all (\<lambda>x. io_ok (snd x)) partial_run"
    by (simp add: partial_run_def io_ok_def event_unfold)
  have nc: "\<not> closed half_sent" "pending half_sent = [106]"
    by (simp_all add: half_sent_eq closed_def pending_def)
  have t: "buffer_inv ?t" "source_polled ?t" "destination_polled ?t" "io_ok ?e"
    by (simp_all add: half_sent_eq buffer_inv_def in_bounds_def pending_def closed_def
          BUFFER_SIZE_def source_polled_def destination_polled_def io_ok_def pump_unfold
          event_unfold)
  have f: "fill ?e ?t = Continue ?t"
    by (simp add: half_sent_eq pump_unfold event_unfold)
  have d: "drain (reader_info 3) ?e ?t = Continue (state_of (drain (reader_info 3) ?e ?t))"
    by (simp add: half_sent_eq pump_unfold event_unfold)
  show ?thesis
    using buffer_invariant [OF h1 h2 partial_run_Continue, of ?t ?e
        "state_of (drain (reader_info 3) ?e ?t)"] h1 h2 partial_run_Continue nc t f d
    by simp
qed

text \<open>
  Claim C4 as stated fails after three bytes have been read and two of them written:
  one byte remains to be written, \<open>buffer_length\<close> is 1 and \<open>buffer_offset\<close> is 2, so
  \<open>length - offset\<close> is not the number of bytes that remain.
\<close>

theorem length_minus_offset_counterexample:
  "pump_loop (reader_info 3) reader_start partial_run = Continue half_sent
   \<and> consumed half_sent = [104, 105, 106]
   \<and> written half_sent = [104, 105]
   \<and> buffer_length half_sent = 1
   \<and> buffer_offset half_sent = 2
   \<and> \<not> spec_buffer_inv half_sent"
  by (simp add: half_sent_eq partial_run_Continue reader_start_def spec_buffer_inv_def)

subsection \<open>When the pump reads\<close>

lemma fill_Continue: "fill e s = Continue (state_of (fill e s))"
  by (simp add: fill_def Let_def ASSERT_NONNEG_size_t_def)

lemma drain_reads: "reads (state_of (drain info e s)) = reads s"
  by (simp add: drain_def write_buffer_def write_eot_def do_fsync_def ASSERT_fails_def Let_def
        reads_def)

lemma fill_reads:
  "reads (state_of (fill e s)) =
     (if keep_going s \<noteq> 0 \<and> found_eof s = 0 \<and> revents (poll_fds_0 s) AND POLLIN \<noteq> 0
         \<and> buffer_length s = 0
      then reads s + 1 else reads s)"
  by (simp add: fill_def Let_def ASSERT_NONNEG_size_t_def reads_def)

lemma fill_guard_after_hangups:
  assumes "keep_going t \<noteq> 0 \<and> found_eof t = 0 \<and> revents (poll_fds_0 t) AND POLLIN \<noteq> 0
             \<and> buffer_length t = 0"
    and "t = destination_hangup (source_hangup (do_poll e s))"
  shows "buffer_length s = 0 \<and> found_eof s = 0 \<and> keep_going s \<noteq> 0
       \<and> 0 \<le> sint (fd (poll_fds_0 s)) \<and> ready_0 e AND POLLIN \<noteq> 0"
  using assms
  by (auto simp: do_poll_def source_hangup_def destination_hangup_def poll_revents_def
        split: if_splits)

lemma hangups_reads: "reads (destination_hangup (source_hangup (do_poll e s))) = reads s"
  by (simp add: do_poll_def source_hangup_def destination_hangup_def reads_def)

lemma pump_cycle_reads:
  "reads (state_of (pump_cycle info e s)) =
     (if ASSERT_NONNEG_int (poll_ret e)
      then reads (state_of (fill e (destination_hangup (source_hangup (do_poll e s)))))
      else reads s)"
proof -
  have "reads (state_of (case fill e t of Continue s2 \<Rightarrow> drain info e s2 | other \<Rightarrow> other))
          = reads (state_of (fill e t))" for t
    by (subst (1) fill_Continue) (simp add: drain_reads)
  then show ?thesis
    by (simp add: pump_cycle_def Let_def ASSERT_fails_def) (simp add: reads_def do_poll_def)
qed

text \<open>
  Claim C9. A pass of the loop makes a \<open>read\<close> call only if, when the pass starts, the
  buffer holds no unsent byte (\<open>buffer_length\<close> is 0), the source is active (no end of
  input found, descriptor not retired), the pump has not been told to stop and \<open>poll\<close>
  reports the source readable; and it makes at most one. So the buffer never holds more
  than the one chunk of the last \<open>read\<close>.
\<close>

theorem read_only_into_empty_buffer:
  assumes "reads (state_of (pump_cycle info e s)) \<noteq> reads s"
  shows "buffer_length s = 0 \<and> found_eof s = 0 \<and> keep_going s \<noteq> 0
       \<and> 0 \<le> sint (fd (poll_fds_0 s)) \<and> ready_0 e AND POLLIN \<noteq> 0
       \<and> reads (state_of (pump_cycle info e s)) = reads s + 1"
proof -
  define t where "t = destination_hangup (source_hangup (do_poll e s))"
  have g: "keep_going t \<noteq> 0 \<and> found_eof t = 0 \<and> revents (poll_fds_0 t) AND POLLIN \<noteq> 0
             \<and> buffer_length t = 0"
    using assms unfolding pump_cycle_reads fill_reads t_def [symmetric]
    by (simp add: t_def hangups_reads split: if_splits)
  have "reads (state_of (pump_cycle info e s)) = reads s + 1"
    using assms g unfolding pump_cycle_reads fill_reads t_def [symmetric]
    by (simp add: t_def hangups_reads split: if_splits)
  then show ?thesis
    using fill_guard_after_hangups [OF g t_def] by simp
qed

theorem read_only_into_empty_buffer_witness:
  "reads (state_of (pump_cycle (reader_info 3) (readable [104, 105, 106]) reader_start)) = 1
   \<and> reads reader_start = 0
   \<and> buffer_length reader_start = 0 \<and> found_eof reader_start = 0
   \<and> reads (state_of (pump_cycle (reader_info 3) (readable [107]) filled)) = reads filled"
proof -
  have r: "reads (state_of (pump_cycle (reader_info 3) (readable [104, 105, 106]) reader_start)) = 1"
      "reads reader_start = 0"
    by (simp_all add: reads_def pump_unfold event_unfold)
  then have h: "reads (state_of (pump_cycle (reader_info 3) (readable [104, 105, 106]) reader_start))
                 \<noteq> reads reader_start"
    by simp
  have f: "reads (state_of (pump_cycle (reader_info 3) (readable [107]) filled)) = reads filled"
    by (simp add: filled_eq reads_def pump_unfold event_unfold)
  show ?thesis
    using read_only_into_empty_buffer [OF h] r f by simp
qed

subsection \<open>The end of the source\<close>

lemma drain_keeps_source:
  "found_eof (state_of (drain info e s)) = found_eof s
   \<and> poll_fds_0 (state_of (drain info e s)) = poll_fds_0 s"
  by (simp add: drain_def write_buffer_def write_eot_def do_fsync_def ASSERT_fails_def Let_def)

lemma drain_idle:
  "revents (poll_fds_1 s) AND POLLOUT = 0 \<Longrightarrow> drain info e s = Continue s"
  by (simp add: drain_def)

lemma source_hangup_eof:
  assumes "0 \<le> sint (fd (poll_fds_0 s))" "ready_0 e AND POLLHUP \<noteq> 0" "ready_0 e AND POLLIN = 0"
    and "t = destination_hangup (source_hangup (do_poll e s))"
  shows "fill e t = Continue t \<and> found_eof t = 1 \<and> fd (poll_fds_0 t) = - 1
       \<and> stderr t = stderr s
       \<and> revents (poll_fds_1 t) = poll_revents (fd (poll_fds_1 s)) (ready_1 e)"
  using assms
  by (simp add: do_poll_def source_hangup_def destination_hangup_def poll_revents_def fill_def)

lemma zero_read_eof:
  assumes "0 \<le> sint (fd (poll_fds_0 s))" "ready_0 e AND POLLIN \<noteq> 0" "keep_going s \<noteq> 0"
    "found_eof s = 0" "buffer_length s = 0"
    "poll_revents (fd (poll_fds_1 s)) (ready_1 e) AND POLLHUP = 0" "read_res e = Read_Avail []"
    and "t = state_of (fill e (destination_hangup (source_hangup (do_poll e s))))"
  shows "fill e (destination_hangup (source_hangup (do_poll e s))) = Continue t
       \<and> found_eof t = 1 \<and> fd (poll_fds_0 t) = - 1 \<and> stderr t = stderr s
       \<and> revents (poll_fds_1 t) = poll_revents (fd (poll_fds_1 s)) (ready_1 e)"
  using assms
  by (simp add: do_poll_def source_hangup_def destination_hangup_def poll_revents_def fill_def
        sys_read_def ret_val_def ASSERT_NONNEG_size_t_def Let_def)

text \<open>
  Claim C6. Let \<open>poll\<close> succeed in a pass of the loop. If it reports a hang-up on the
  source and nothing to read, or if it reports the source readable and the \<open>read\<close> the
  pass then makes returns 0, the source is retired (its descriptor set to \<open>-1\<close>) and
  \<open>found_eof\<close> is set. Neither event fails an assertion or prints anything: the pass goes
  on to its drain step in that state, and where the destination is not reported writable
  it ends normally.
\<close>

theorem source_end_is_not_an_error:
  assumes "ASSERT_NONNEG_int (poll_ret e)" and "0 \<le> sint (fd (poll_fds_0 s))"
    and "(ready_0 e AND POLLHUP \<noteq> 0 \<and> ready_0 e AND POLLIN = 0)
         \<or> (ready_0 e AND POLLIN \<noteq> 0 \<and> keep_going s \<noteq> 0 \<and> found_eof s = 0
             \<and> buffer_length s = 0
             \<and> poll_revents (fd (poll_fds_1 s)) (ready_1 e) AND POLLHUP = 0
             \<and> read_res e = Read_Avail [])"
    and "out = pump_cycle info e s"
  shows "found_eof (state_of out) = 1 \<and> fd (poll_fds_0 (state_of out)) = - 1
       \<and> (\<exists>t. found_eof t = 1 \<and> fd (poll_fds_0 t) = - 1 \<and> stderr t = stderr s
               \<and> out = drain info e t)
       \<and> (poll_revents (fd (poll_fds_1 s)) (ready_1 e) AND POLLOUT = 0
            \<longrightarrow> out = Continue (state_of out) \<and> stderr (state_of out) = stderr s)"
proof -
  define m where "m = destination_hangup (source_hangup (do_poll e s))"
  define t where "t = state_of (fill e m)"
  have t: "fill e m = Continue t \<and> found_eof t = 1 \<and> fd (poll_fds_0 t) = - 1
           \<and> stderr t = stderr s
           \<and> revents (poll_fds_1 t) = poll_revents (fd (poll_fds_1 s)) (ready_1 e)"
    using assms(3)
  proof
    assume "ready_0 e AND POLLHUP \<noteq> 0 \<and> ready_0 e AND POLLIN = 0"
    then show ?thesis
      using source_hangup_eof [OF assms(2) _ _ m_def] by (simp add: t_def)
  next
    assume "ready_0 e AND POLLIN \<noteq> 0 \<and> keep_going s \<noteq> 0 \<and> found_eof s = 0
             \<and> buffer_length s = 0
             \<and> poll_revents (fd (poll_fds_1 s)) (ready_1 e) AND POLLHUP = 0
             \<and> read_res e = Read_Avail []"
    then show ?thesis
      using zero_read_eof [OF assms(2), of e t] by (simp add: t_def m_def)
  qed
  have out: "out = drain info e t"
    using assms(1,4) t by (simp add: pump_cycle_def Let_def m_def)
  show ?thesis
    using t out drain_keeps_source [of info e t] drain_idle [of t info e] by auto
qed

theorem source_end_is_not_an_error_witness:
  "ASSERT_NONNEG_int (poll_ret (readable [])) \<and> 0 \<le> sint (fd (poll_fds_0 reader_start))
   \<and> found_eof (state_of (pump_cycle (reader_info 3) (readable []) reader_start)) = 1
   \<and> fd (poll_fds_0 (state_of (pump_cycle (reader_info 3) (readable []) reader_start))) = - 1
   \<and> pump_cycle (reader_info 3) (readable []) reader_start
       = Continue (state_of (pump_cycle (reader_info 3) (readable []) reader_start))
   \<and> found_eof (state_of (pump_cycle (reader_info 3) (idle\<lparr> ready_0 := POLLHUP \<rparr>) filled)) = 1
   \<and> stderr (state_of (pump_cycle (reader_info 3) (idle\<lparr> ready_0 := POLLHUP \<rparr>) filled)) = []"
proof -
  have h: "ASSERT_NONNEG_int (poll_ret (readable []))" "0 \<le> sint (fd (poll_fds_0 reader_start))"
    "ready_0 (readable []) AND POLLIN \<noteq> 0 \<and> keep_going reader_start \<noteq> 0
       \<and> found_eof reader_start = 0 \<and> buffer_length reader_start = 0
       \<and> poll_revents (fd (poll_fds_1 reader_start)) (ready_1 (readable [])) AND POLLHUP = 0
       \<and> read_res (readable []) = Read_Avail []"
    "poll_revents (fd (poll_fds_1 reader_start)) (ready_1 (readable [])) AND POLLOUT = 0"
    by (simp_all add: pump_unfold event_unfold)
  have g: "ASSERT_NONNEG_int (poll_ret (idle\<lparr> ready_0 := POLLHUP \<rparr>))"
    "0 \<le> sint (fd (poll_fds_0 filled))"
    "ready_0 (idle\<lparr> ready_0 := POLLHUP \<rparr>) AND POLLHUP \<noteq> 0
       \<and> ready_0 (idle\<lparr> ready_0 := POLLHUP \<rparr>) AND POLLIN = 0"
    "poll_revents (fd (poll_fds_1 filled)) (ready_1 (idle\<lparr> ready_0 := POLLHUP \<rparr>)) AND POLLOUT = 0"
    "stderr filled = []"
    by (simp_all add: filled_eq pump_unfold event_unfold)
  show ?thesis
    using source_end_is_not_an_error [OF h(1,2) disjI2 [OF h(3)] refl, of "reader_info 3"]
      source_end_is_not_an_error [OF g(1,2) disjI1 [OF g(3)] refl, of "reader_info 3"]
      h g
    by simp
qed

subsection \<open>The end-of-transmission byte\<close>

lemma hangups_eot:
  "eot_writes (destination_hangup (source_hangup (do_poll e s))) = eot_writes s"
  by (simp add: do_poll_def source_hangup_def destination_hangup_def eot_writes_def)

lemma fill_eot: "eot_writes (state_of (fill e s)) = eot_writes s"
  by (simp add: fill_def Let_def ASSERT_NONNEG_size_t_def eot_writes_def)

lemma write_buffer_eot: "eot_writes (state_of (write_buffer e s)) = eot_writes s"
  by (simp add: write_buffer_def do_fsync_def ASSERT_fails_def Let_def eot_writes_def)

lemma write_eot_eot:
  "eot_writes (state_of (write_eot info e s)) \<le> eot_writes s + 1
   \<and> (write_eot info e s = Continue s' \<longrightarrow> keep_going s' = 0 \<and> buffer_length s' = buffer_length s)"
  by (auto simp: write_eot_def do_fsync_def ASSERT_fails_def Let_def eot_writes_def)

lemma drain_eot:
  assumes "eot_writes s = 0"
  shows "eot_writes (state_of (drain info e s)) \<le> 1
       \<and> (drain info e s = Continue s' \<longrightarrow> eot_inv s')"
proof (cases "revents (poll_fds_1 s) AND POLLOUT \<noteq> 0 \<and> \<not> 0 < buffer_length s \<and> found_eof s \<noteq> 0")
  case True
  then have d: "drain info e s = write_eot info e s" and len: "buffer_length s = 0"
    by (simp_all add: drain_def word_greater_zero_iff)
  have "eot_writes (state_of (write_eot info e s)) \<le> 1" 
    "write_eot info e s = Continue s' \<longrightarrow> keep_going s' = 0 \<and> buffer_length s' = 0"
    using write_eot_eot [of info e s s'] assms len by simp_all
  then show ?thesis
    unfolding d by (auto simp: eot_inv_def closed_def)
next
  case False
  then have "drain info e s = write_buffer e s \<or> drain info e s = Continue s"
    by (auto simp: drain_def)
  then consider "drain info e s = write_buffer e s" | "drain info e s = Continue s"
    by blast
  then show ?thesis
  proof cases
    case 1
    have "eot_writes (state_of (drain info e s)) = 0"
      using assms write_buffer_eot [of e s] 1 by simp
    moreover have "eot_writes s' = 0" if "drain info e s = Continue s'"
      using that calculation by simp
    ultimately show ?thesis by (simp add: eot_inv_def)
  next
    case 2
    then show ?thesis using assms by (auto simp: eot_inv_def)
  qed
qed

lemma pump_cycle_eot:
  assumes "eot_writes s = 0"
  shows "eot_writes (state_of (pump_cycle info e s)) \<le> 1
       \<and> (pump_cycle info e s = Continue s' \<longrightarrow> eot_inv s')"
proof (cases "ASSERT_NONNEG_int (poll_ret e)")
  case False
  then show ?thesis using assms
    by (simp add: pump_cycle_def Let_def ASSERT_fails_def do_poll_def eot_writes_def)
next
  case True
  define t where "t = state_of (fill e (destination_hangup (source_hangup (do_poll e s))))"
  have f: "fill e (destination_hangup (source_hangup (do_poll e s))) = Continue t"
    unfolding t_def by (rule fill_Continue)
  have "eot_writes t = 0"
    using assms by (simp add: t_def fill_eot hangups_eot)
  then show ?thesis
    using drain_eot [of t info e s'] True f by (simp add: pump_cycle_def Let_def)
qed

lemma loop_test_eot [simp]: "eot_writes (fst (loop_test ad s)) = eot_writes s"
  by (simp add: loop_test_def Let_def eot_writes_def)

lemma pump_iter_alt:
  "pump_iter info ad e s =
     (if snd (loop_test ad s) then pump_cycle info e (fst (loop_test ad s))
      else Finished (fst (loop_test ad s)))"
  by (simp add: pump_iter_def split: prod.splits)

lemma pump_iter_eot:
  assumes "eot_inv s"
  shows "eot_writes (state_of (pump_iter info ad e s)) \<le> 1
       \<and> (pump_iter info ad e s = Continue s' \<longrightarrow> eot_inv s')"
proof (cases "snd (loop_test ad s)")
  case True
  then have "\<not> closed s" by (auto simp: loop_test_def Let_def closed_def)
  with assms have "eot_writes (fst (loop_test ad s)) = 0" by (simp add: eot_inv_def)
  then show ?thesis
    using pump_cycle_eot [of "fst (loop_test ad s)" info e s'] True
    by (simp add: pump_iter_alt)
next
  case False
  then show ?thesis using assms
    by (auto simp: pump_iter_alt eot_inv_def)
qed

lemma pump_loop_eot:
  assumes "eot_inv s"
  shows "eot_writes (state_of (pump_loop info s evs)) \<le> 1"
  using assms
proof (induction evs arbitrary: s)
  case Nil
  then show ?case by (auto simp: eot_inv_def)
next
  case (Cons x evs)
  obtain ad e where x: "x = (ad, e)" by (cases x)
  show ?case
  proof (cases "pump_iter info ad e s")
    case (Continue s1)
    then have "eot_inv s1" using pump_iter_eot [of s info ad e s1] Cons.prems by simp
    then show ?thesis using Cons.IH [of s1] Continue by (simp add: x)
  next
    case (Died s1)
    then show ?thesis using pump_iter_eot [of s info ad e] Cons.prems by (simp add: x)
  next
    case (Overrun s1)
    then show ?thesis using pump_iter_eot [of s info ad e] Cons.prems by (simp add: x)
  next
    case (Finished s1)
    then show ?thesis using pump_iter_eot [of s info ad e] Cons.prems by (simp add: x)
  qed
qed

lemma pump_init_eot: "eot_inv (pump_init info buf0)"
  by (simp add: eot_inv_def eot_writes_def pump_init_def)

lemma closed_Finished: "closed s \<Longrightarrow> pump_iter info ad e s = Finished s"
  by (cases s) (simp add: pump_iter_def loop_test_def Let_def closed_def)

lemma eof_pending_cycle:
  assumes "ASSERT_NONNEG_int (poll_ret e)" "found_eof s \<noteq> 0" "buffer_length s = 0"
    "0 \<le> sint (fd (poll_fds_1 s))" "ready_1 e AND POLLOUT \<noteq> 0" "ready_1 e AND POLLHUP = 0"
    and "t = source_hangup (do_poll e s)"
  shows "pump_cycle info e s = write_eot info e t
       \<and> calls t = calls s @ [Poll] \<and> written t = written s \<and> fd (poll_fds_1 t) = fd (poll_fds_1 s)
       \<and> buffer_length t = 0"
  using assms
  by (simp add: pump_cycle_def Let_def do_poll_def source_hangup_def destination_hangup_def
        poll_revents_def fill_def drain_def)


lemma write_eot_result:
  assumes "0 \<le> sint (fd (poll_fds_1 t))" "buffer_length t = 0"
    and "n = (if send_eot info \<noteq> 0 \<and> (isastream_ret e \<noteq> 0 \<or> isatty_ret e \<noteq> 0) then 1 else 0 :: nat)"
    and "out = write_eot info e t"
  shows "calls (state_of out)
           = calls t @ [Write (fd (poll_fds_1 t)) Eot_char (of_nat n)]
               @ (if write_res e = Write_Error then [] else [Fsync (fd (poll_fds_1 t))])
       \<and> written (state_of out)
           = written t @ (if n = 1 \<and> write_res e \<noteq> Write_Error \<and> write_res e \<noteq> Write_Room 0
                          then [0x04] else [])
       \<and> (if write_res e \<noteq> Write_Error \<and> fsync_ret e = 0
           then out = Continue (state_of out) \<and> closed (state_of out)
           else out = Died (state_of out))"
proof (cases "write_res e")
  case Write_Error
  then show ?thesis
    using assms
    by (simp add: write_eot_def sys_write_def ret_val_def ASSERT_NONNEG_ssize_t_def
          ASSERT_fails_def Let_def)
next
  case (Write_Room r)
  have k: "min n r = 0 \<or> min n r = 1" "n \<le> 1" using assms(3) by (auto simp: min_def)
  then have nonneg: "ASSERT_NONNEG_ssize_t (of_nat (min n r))"
    by (auto simp: ASSERT_NONNEG_ssize_t_def)
  have tk: "take (min n r) [0x04 :: byte] = (if n = 1 \<and> r \<noteq> 0 then [0x04] else [])"
    using k(2) by (cases r) (auto simp: min_def)
  have acc: "sys_write (fd (poll_fds_1 t)) n (write_res e) = Some (min n r)"
    using assms(1) Write_Room by (simp add: sys_write_def)
  have "write_eot info e t =
          (let s1 = t\<lparr> written := written t @ take (min n r) [0x04],
                       calls := calls t @ [Write (fd (poll_fds_1 t)) Eot_char (of_nat n)] \<rparr>
           in do_fsync e s1 (\<lambda>s2. Continue (s2\<lparr> keep_going := 0 \<rparr>)))"
    unfolding write_eot_def assms(3) [symmetric] Let_def acc
    using nonneg by (simp add: ret_val_def eot_char_def)
  then show ?thesis
    using assms(2,4) Write_Room tk
    by (simp add: do_fsync_def ASSERT_ZERO_def ASSERT_fails_def Let_def closed_def)
qed

lemma drain_eof_pending:
  assumes "found_eof t \<noteq> 0" "buffer_length t = 0" "revents (poll_fds_1 t) AND POLLOUT \<noteq> 0"
  shows "drain info e t = write_eot info e t"
  using assms by (simp add: drain_def)

text \<open>
  Let a pass of the loop start with the end of input found and the buffer empty, and let
  \<open>poll\<close> succeed and report the destination writable and not hung up. The pass makes
  exactly one \<open>write\<close>, from \<open>eot_char\<close>: of one byte, the byte 4, if and only if
  \<open>send_eot\<close> is set and \<open>isastream\<close> or \<open>isatty\<close> holds of the destination, of no byte
  otherwise. If that \<open>write\<close> and the \<open>fsync\<close> after it succeed the pass ends with the
  loop condition false, so the next test leaves the loop; if not the process exits. The
  same holds of the drain step alone, so also of a pass that finds the end of input
  itself. In any run of any pump at most one \<open>write\<close> offers the end-of-transmission byte.
\<close>

lemma eot_written_when_not_hung_up:
  assumes "ASSERT_NONNEG_int (poll_ret e)" and "found_eof s \<noteq> 0" and "buffer_length s = 0"
    and "0 \<le> sint (fd (poll_fds_1 s))" and "ready_1 e AND POLLOUT \<noteq> 0"
    and "ready_1 e AND POLLHUP = 0"
    and "n = (if send_eot info \<noteq> 0 \<and> (isastream_ret e \<noteq> 0 \<or> isatty_ret e \<noteq> 0) then 1 else 0 :: nat)"
    and "out = pump_cycle info e s"
  shows "calls (state_of out)
           = calls s @ [Poll, Write (fd (poll_fds_1 s)) Eot_char (of_nat n)]
               @ (if write_res e = Write_Error then [] else [Fsync (fd (poll_fds_1 s))])
       \<and> written (state_of out)
           = written s @ (if n = 1 \<and> write_res e \<noteq> Write_Error \<and> write_res e \<noteq> Write_Room 0
                          then [0x04] else [])
       \<and> (if write_res e \<noteq> Write_Error \<and> fsync_ret e = 0
           then out = Continue (state_of out)
                \<and> pump_iter info ad e' (state_of out) = Finished (state_of out)
           else out = Died (state_of out))
       \<and> (found_eof t \<noteq> 0 \<and> buffer_length t = 0 \<and> revents (poll_fds_1 t) AND POLLOUT \<noteq> 0
            \<and> 0 \<le> sint (fd (poll_fds_1 t))
            \<longrightarrow> calls (state_of (drain info e t))
                  = calls t @ [Write (fd (poll_fds_1 t)) Eot_char (of_nat n)]
                      @ (if write_res e = Write_Error then [] else [Fsync (fd (poll_fds_1 t))])
                \<and> written (state_of (drain info e t))
                  = written t @ (if n = 1 \<and> write_res e \<noteq> Write_Error
                                    \<and> write_res e \<noteq> Write_Room 0
                                 then [0x04] else [])
                \<and> (if write_res e \<noteq> Write_Error \<and> fsync_ret e = 0
                    then drain info e t = Continue (state_of (drain info e t))
                         \<and> pump_iter info ad e' (state_of (drain info e t))
                             = Finished (state_of (drain info e t))
                    else drain info e t = Died (state_of (drain info e t))))
       \<and> eot_writes (state_of (pump_loop info (pump_init info buf0) evs)) \<le> 1"
proof -
  define u where "u = source_hangup (do_poll e s)"
  have u: "pump_cycle info e s = write_eot info e u" "calls u = calls s @ [Poll]"
    "written u = written s" "fd (poll_fds_1 u) = fd (poll_fds_1 s)" "buffer_length u = 0"
    using eof_pending_cycle [OF assms(1-6) u_def, of info] by simp_all
  have r: "calls (state_of out)
           = calls u @ [Write (fd (poll_fds_1 u)) Eot_char (of_nat n)]
               @ (if write_res e = Write_Error then [] else [Fsync (fd (poll_fds_1 u))])
       \<and> written (state_of out)
           = written u @ (if n = 1 \<and> write_res e \<noteq> Write_Error \<and> write_res e \<noteq> Write_Room 0
                          then [0x04] else [])
       \<and> (if write_res e \<noteq> Write_Error \<and> fsync_ret e = 0
           then out = Continue (state_of out) \<and> closed (state_of out)
           else out = Died (state_of out))"
    using assms(4) u(4,5) by (intro write_eot_result [OF _ _ assms(7)]) (simp_all add: assms(8) u(1))
  have cycle: "calls (state_of out)
           = calls s @ [Poll, Write (fd (poll_fds_1 s)) Eot_char (of_nat n)]
               @ (if write_res e = Write_Error then [] else [Fsync (fd (poll_fds_1 s))])
       \<and> written (state_of out)
           = written s @ (if n = 1 \<and> write_res e \<noteq> Write_Error \<and> write_res e \<noteq> Write_Room 0
                          then [0x04] else [])
       \<and> (if write_res e \<noteq> Write_Error \<and> fsync_ret e = 0
           then out = Continue (state_of out)
                \<and> pump_iter info ad e' (state_of out) = Finished (state_of out)
           else out = Died (state_of out))"
    using r u(2-4) closed_Finished [of "state_of out" info ad e'] by (simp split: if_splits)
  have step: "calls (state_of (drain info e t))
                  = calls t @ [Write (fd (poll_fds_1 t)) Eot_char (of_nat n)]
                      @ (if write_res e = Write_Error then [] else [Fsync (fd (poll_fds_1 t))])
                \<and> written (state_of (drain info e t))
                  = written t @ (if n = 1 \<and> write_res e \<noteq> Write_Error
                                    \<and> write_res e \<noteq> Write_Room 0
                                 then [0x04] else [])
                \<and> (if write_res e \<noteq> Write_Error \<and> fsync_ret e = 0
                    then drain info e t = Continue (state_of (drain info e t))
                         \<and> pump_iter info ad e' (state_of (drain info e t))
                             = Finished (state_of (drain info e t))
                    else drain info e t = Died (state_of (drain info e t)))"
    if t: "found_eof t \<noteq> 0" "buffer_length t = 0" "revents (poll_fds_1 t) AND POLLOUT \<noteq> 0"
      "0 \<le> sint (fd (poll_fds_1 t))"
  proof -
    have "calls (state_of (drain info e t))
           = calls t @ [Write (fd (poll_fds_1 t)) Eot_char (of_nat n)]
               @ (if write_res e = Write_Error then [] else [Fsync (fd (poll_fds_1 t))])
       \<and> written (state_of (drain info e t))
           = written t @ (if n = 1 \<and> write_res e \<noteq> Write_Error \<and> write_res e \<noteq> Write_Room 0
                          then [0x04] else [])
       \<and> (if write_res e \<noteq> Write_Error \<and> fsync_ret e = 0
           then drain info e t = Continue (state_of (drain info e t))
                \<and> closed (state_of (drain info e t))
           else drain info e t = Died (state_of (drain info e t)))"
      by (rule write_eot_result [OF t(4,2) assms(7)]) (simp add: drain_eof_pending t)
    then show ?thesis
      using closed_Finished [of "state_of (drain info e t)" info ad e'] by (simp split: if_splits)
  qed
  have "eot_writes (state_of (pump_loop info (pump_init info buf0) evs)) \<le> 1"
    by (rule pump_loop_eot [OF pump_init_eot])
  then show ?thesis
    using cycle step by blast
qed

lemma eot_written_when_not_hung_up_example:
  "ASSERT_NONNEG_int (poll_ret (writable 8)) \<and> ready_1 (writable 8) AND POLLOUT \<noteq> 0
   \<and> found_eof (state_of (pump_cycle (reader_info 3) (readable []) reader_start)) \<noteq> 0
   \<and> calls (state_of (pump_cycle (reader_info 3) (writable 8)
                (state_of (pump_cycle (reader_info 3) (readable []) reader_start))))
       = [Poll, Read 0 8, Poll, Write 3 Eot_char 1, Fsync 3]
   \<and> written (state_of (pump_cycle (reader_info 3) (writable 8)
                (state_of (pump_cycle (reader_info 3) (readable []) reader_start))))
       = [0x04]
   \<and> calls (state_of (pump_cycle (writer_info 3) (writable 8)
                (state_of (pump_cycle (writer_info 3) (readable []) writer_start))))
       = [Poll, Read 3 8, Poll, Write 1 Eot_char 0, Fsync 1]
   \<and> written (state_of (pump_cycle (writer_info 3) (writable 8)
                (state_of (pump_cycle (writer_info 3) (readable []) writer_start))))
       = []
   \<and> found_eof (state_of (fill (both_ready [] 8) (do_poll (both_ready [] 8) reader_start))) \<noteq> 0
   \<and> calls (state_of (drain (reader_info 3) (both_ready [] 8)
                (state_of (fill (both_ready [] 8) (do_poll (both_ready [] 8) reader_start)))))
       = [Poll, Read 0 8, Write 3 Eot_char 1, Fsync 3]
   \<and> eot_writes (state_of (pump_loop (reader_info 3) reader_start eot_run)) = 1"
proof -
  let ?r = "state_of (pump_cycle (reader_info 3) (readable []) reader_start)"
  let ?w = "state_of (pump_cycle (writer_info 3) (readable []) writer_start)"
  let ?t = "state_of (fill (both_ready [] 8) (do_poll (both_ready [] 8) reader_start))"
  have e: "ASSERT_NONNEG_int (poll_ret (writable 8))" "ready_1 (writable 8) AND POLLOUT \<noteq> 0"
    "ready_1 (writable 8) AND POLLHUP = 0" "write_res (writable 8) = Write_Room 8"
    "fsync_ret (writable 8) = 0" "isatty_ret (writable 8) = 1"
    by (simp_all add: pump_unfold event_unfold)
  have b: "ASSERT_NONNEG_int (poll_ret (both_ready [] 8))" "ready_1 (both_ready [] 8) AND POLLOUT \<noteq> 0"
    "ready_1 (both_ready [] 8) AND POLLHUP = 0" "write_res (both_ready [] 8) = Write_Room 8"
    "fsync_ret (both_ready [] 8) = 0" "isatty_ret (both_ready [] 8) = 1"
    by (simp_all add: pump_unfold event_unfold)
  have r: "found_eof ?r \<noteq> 0" "buffer_length ?r = 0" "0 \<le> sint (fd (poll_fds_1 ?r))"
    "calls ?r = [Poll, Read 0 8]" "written ?r = []" "fd (poll_fds_1 ?r) = 3"
    by (simp_all add: pump_unfold event_unfold)
  have w: "found_eof ?w \<noteq> 0" "buffer_length ?w = 0" "0 \<le> sint (fd (poll_fds_1 ?w))"
    "calls ?w = [Poll, Read 3 8]" "written ?w = []" "fd (poll_fds_1 ?w) = 1"
    by (simp_all add: pump_unfold event_unfold)
  have t: "found_eof ?t \<noteq> 0" "buffer_length ?t = 0" "revents (poll_fds_1 ?t) AND POLLOUT \<noteq> 0"
    "0 \<le> sint (fd (poll_fds_1 ?t))" "calls ?t = [Poll, Read 0 8]" "fd (poll_fds_1 ?t) = 3"
    by (simp_all add: pump_unfold event_unfold)
  have n: "eot_writes (state_of (pump_loop (reader_info 3) reader_start eot_run)) = 1"
    by (simp add: eot_writes_def eot_run_def pump_unfold event_unfold)
  show ?thesis
    using eot_written_when_not_hung_up [OF e(1) r(1,2,3) e(2,3) refl refl, of "reader_info 3"]
      eot_written_when_not_hung_up [OF e(1) w(1,2,3) e(2,3) refl refl, of "writer_info 3"]
      eot_written_when_not_hung_up [OF b(1) r(1,2,3) b(2,3) refl refl, of "reader_info 3" _ _ ?t]
      e b r w t n
    by (simp add: reader_info_def writer_info_def)
qed

lemma eof_pending_hangup_cycle:
  assumes "ASSERT_NONNEG_int (poll_ret e)" "found_eof s \<noteq> 0"
    "0 \<le> sint (fd (poll_fds_1 s))" "ready_1 e AND POLLOUT \<noteq> 0" "ready_1 e AND POLLHUP \<noteq> 0"
    and "t = destination_hangup (source_hangup (do_poll e s))"
  shows "pump_cycle info e s = write_eot info e t
       \<and> calls t = calls s @ [Poll] \<and> written t = written s \<and> stderr t = stderr s
       \<and> fd (poll_fds_1 t) = - 1 \<and> buffer_length t = 0 \<and> keep_going t = 0"
  using assms
  by (simp add: pump_cycle_def Let_def do_poll_def source_hangup_def destination_hangup_def
        poll_revents_def fill_def drain_def)

lemma write_eot_retired:
  assumes "fd (poll_fds_1 t) = - 1"
    and "n = (if send_eot info \<noteq> 0 \<and> (isastream_ret e \<noteq> 0 \<or> isatty_ret e \<noteq> 0) then 1 else 0)"
  shows "write_eot info e t
           = Died (t\<lparr> calls := calls t @ [Write (- 1) Eot_char n],
                      stderr := stderr t @ ''terminator: '' @ errno_text e @ [CHR 0x0A] \<rparr>)"
  using assms
  by (simp add: write_eot_def sys_write_def ret_val_def ASSERT_NONNEG_ssize_t_def Let_def
        ASSERT_fails_def ASSERT_output_def ASSERT_PRINT_PROGRAM_NAME_def ASSERT_PROGRAM_NAME_def)

text \<open>
  Claim C7 does not hold of the code when \<open>poll\<close> reports the destination writable and hung
  up in the same pass, as a terminal whose other side has been closed is reported. Let a
  pass start with the end of input found, the buffer empty and the destination not yet
  retired. The pass retires the destination and then makes its one \<open>write\<close> on descriptor
  \<open>-1\<close>: no byte is written, whatever \<open>send_eot\<close> and the kind of the destination are, the
  diagnostic is printed and the process exits.
\<close>

theorem eot_write_after_hangup_fails:
  assumes "ASSERT_NONNEG_int (poll_ret e)" and "found_eof s \<noteq> 0" and "buffer_length s = 0"
    and "0 \<le> sint (fd (poll_fds_1 s))" and "ready_1 e AND POLLOUT \<noteq> 0"
    and "ready_1 e AND POLLHUP \<noteq> 0"
    and "n = (if send_eot info \<noteq> 0 \<and> (isastream_ret e \<noteq> 0 \<or> isatty_ret e \<noteq> 0) then 1 else 0)"
    and "out = pump_cycle info e s"
  shows "out = Died (state_of out)
       \<and> calls (state_of out) = calls s @ [Poll, Write (- 1) Eot_char n]
       \<and> written (state_of out) = written s
       \<and> stderr (state_of out) = stderr s @ ''terminator: '' @ errno_text e @ [CHR 0x0A]"
proof -
  define t where "t = destination_hangup (source_hangup (do_poll e s))"
  have t: "pump_cycle info e s = write_eot info e t" "calls t = calls s @ [Poll]"
    "written t = written s" "stderr t = stderr s" "fd (poll_fds_1 t) = - 1"
    using eof_pending_hangup_cycle [OF assms(1,2,4,5,6) t_def, of info] by simp_all
  show ?thesis
    unfolding assms(8) t(1) write_eot_retired [OF t(5) assms(7)]
    using t(2-4) by simp
qed

theorem eot_write_after_hangup_fails_witness:
  "ASSERT_NONNEG_int (poll_ret destination_gone_writable)
   \<and> ready_1 destination_gone_writable AND POLLOUT \<noteq> 0
   \<and> ready_1 destination_gone_writable AND POLLHUP \<noteq> 0
   \<and> found_eof (state_of (pump_cycle (reader_info 3) (readable []) reader_start)) \<noteq> 0
   \<and> buffer_length (state_of (pump_cycle (reader_info 3) (readable []) reader_start)) = 0
   \<and> fd (poll_fds_1 (state_of (pump_cycle (reader_info 3) (readable []) reader_start))) = 3
   \<and> pump_cycle (reader_info 3) destination_gone_writable
        (state_of (pump_cycle (reader_info 3) (readable []) reader_start))
       = Died (state_of (pump_cycle (reader_info 3) destination_gone_writable
                 (state_of (pump_cycle (reader_info 3) (readable []) reader_start))))
   \<and> calls (state_of (pump_cycle (reader_info 3) destination_gone_writable
                (state_of (pump_cycle (reader_info 3) (readable []) reader_start))))
       = [Poll, Read 0 8, Poll, Write (- 1) Eot_char 1]
   \<and> written (state_of (pump_cycle (reader_info 3) destination_gone_writable
                (state_of (pump_cycle (reader_info 3) (readable []) reader_start))))
       = []
   \<and> stderr (state_of (pump_cycle (reader_info 3) destination_gone_writable
                (state_of (pump_cycle (reader_info 3) (readable []) reader_start))))
       = ''terminator: Bad file descriptor'' @ [CHR 0x0A]
   \<and> pump_cycle (writer_info 3) destination_gone_writable
        (state_of (pump_cycle (writer_info 3) (readable []) writer_start))
       = Died (state_of (pump_cycle (writer_info 3) destination_gone_writable
                 (state_of (pump_cycle (writer_info 3) (readable []) writer_start))))
   \<and> calls (state_of (pump_cycle (writer_info 3) destination_gone_writable
                (state_of (pump_cycle (writer_info 3) (readable []) writer_start))))
       = [Poll, Read 3 8, Poll, Write (- 1) Eot_char 0]"
proof -
  let ?r = "state_of (pump_cycle (reader_info 3) (readable []) reader_start)"
  let ?w = "state_of (pump_cycle (writer_info 3) (readable []) writer_start)"
  have e: "ASSERT_NONNEG_int (poll_ret destination_gone_writable)"
    "ready_1 destination_gone_writable AND POLLOUT \<noteq> 0"
    "ready_1 destination_gone_writable AND POLLHUP \<noteq> 0"
    "isastream_ret destination_gone_writable \<noteq> 0"
    "errno_text destination_gone_writable = ''Bad file descriptor''"
    by (simp_all add: pump_unfold event_unfold)
  have r: "found_eof ?r \<noteq> 0" "buffer_length ?r = 0" "0 \<le> sint (fd (poll_fds_1 ?r))"
    "calls ?r = [Poll, Read 0 8]" "written ?r = []" "fd (poll_fds_1 ?r) = 3" "stderr ?r = []"
    by (simp_all add: pump_unfold event_unfold)
  have w: "found_eof ?w \<noteq> 0" "buffer_length ?w = 0" "0 \<le> sint (fd (poll_fds_1 ?w))"
    "calls ?w = [Poll, Read 3 8]" "written ?w = []" "fd (poll_fds_1 ?w) = 1" "stderr ?w = []"
    by (simp_all add: pump_unfold event_unfold)
  show ?thesis
    using eot_write_after_hangup_fails [OF e(1) r(1,2,3) e(2,3) refl refl, of "reader_info 3"]
      eot_write_after_hangup_fails [OF e(1) w(1,2,3) e(2,3) refl refl, of "writer_info 3"]
      e r w
    by (simp add: reader_info_def writer_info_def)
qed

subsection \<open>The shared flag\<close>

lemma pump_iter_all_done:
  assumes "ad \<noteq> 0"
  shows "pump_iter info ad e s =
           (if buffer_length s = 0 then Finished (s\<lparr> keep_going := 0 \<rparr>)
            else pump_cycle info e (s\<lparr> keep_going := 0 \<rparr>))"
  using assms by (simp add: pump_iter_def loop_test_def lnot_def Let_def)

lemma pump_cycle_stopped:
  assumes "keep_going s = 0"
  shows "pump_cycle info e s =
           (if ASSERT_NONNEG_int (poll_ret e)
            then drain info e (destination_hangup (source_hangup (do_poll e s)))
            else ASSERT_fails e (do_poll e s))"
proof -
  have "keep_going (destination_hangup (source_hangup (do_poll e s))) = 0"
    using assms by (simp add: do_poll_def source_hangup_def destination_hangup_def)
  then have "fill e (destination_hangup (source_hangup (do_poll e s)))
               = Continue (destination_hangup (source_hangup (do_poll e s)))"
    by (simp add: fill_def)
  then show ?thesis by (simp add: pump_cycle_def Let_def)
qed

lemma drain_consumed: "consumed (state_of (drain info e s)) = consumed s"
  by (simp add: drain_def write_buffer_def write_eot_def do_fsync_def ASSERT_fails_def Let_def)

lemma hangups_consumed:
  "consumed (destination_hangup (source_hangup (do_poll e s))) = consumed s"
  by (simp add: do_poll_def source_hangup_def destination_hangup_def)

lemma flag_set_no_read:
  assumes "ad \<noteq> 0"
  shows "reads (state_of (pump_iter info ad e s)) = reads s
       \<and> consumed (state_of (pump_iter info ad e s)) = consumed s"
proof (cases "buffer_length s = 0")
  case True
  then show ?thesis using assms by (simp add: pump_iter_all_done reads_def)
next
  case False
  have "pump_iter info ad e s = pump_cycle info e (s\<lparr> keep_going := 0 \<rparr>)"
    using assms False by (simp add: pump_iter_all_done)
  then show ?thesis
    by (simp add: pump_cycle_stopped drain_reads drain_consumed hangups_reads hangups_consumed
          ASSERT_fails_def)
       (simp add: reads_def do_poll_def)
qed

lemma flag_set_waits:
  assumes "ad \<noteq> 0" "buffer_length s \<noteq> 0" "ASSERT_NONNEG_int (poll_ret e)"
    and "poll_revents (fd (poll_fds_1 s)) (ready_1 e) AND POLLOUT = 0"
    and "poll_revents (fd (poll_fds_1 s)) (ready_1 e) AND POLLHUP = 0"
    and "t = state_of (pump_iter info ad e s)"
  shows "pump_iter info ad e s = Continue t \<and> calls t = calls s @ [Poll]
       \<and> buffer t = buffer s \<and> buffer_offset t = buffer_offset s
       \<and> buffer_length t = buffer_length s \<and> written t = written s"
proof -
  define u where "u = destination_hangup (source_hangup (do_poll e (s\<lparr> keep_going := 0 \<rparr>)))"
  have u: "calls u = calls s @ [Poll]" "buffer u = buffer s" "buffer_offset u = buffer_offset s"
    "buffer_length u = buffer_length s" "written u = written s"
    "revents (poll_fds_1 u) AND POLLOUT = 0"
    using assms(4,5)
    by (simp_all add: u_def do_poll_def source_hangup_def destination_hangup_def)
  have "pump_iter info ad e s = drain info e u"
    using assms(1-3) by (simp add: pump_iter_all_done pump_cycle_stopped u_def)
  then have "pump_iter info ad e s = Continue u" using u(6) by (simp add: drain_def)
  then show ?thesis using u assms(6) by simp
qed

lemma write_buffer_result:
  assumes "in_bounds s" "0 \<le> sint (fd (poll_fds_1 s))" "write_res e = Write_Room r"
    "fsync_ret e = 0" and "k = min (unat (buffer_length s)) r"
    and "t = state_of (write_buffer e s)"
  shows "write_buffer e s = Continue t
       \<and> written t = written s @ take k (pending s)
       \<and> pending t = drop k (pending s)
       \<and> unat (buffer_length t) = unat (buffer_length s) - k
       \<and> unat (buffer_offset t) = unat (buffer_offset s) + k
       \<and> calls t = calls s @ [Write (fd (poll_fds_1 s)) (Buffer_plus (buffer_offset s))
                                 (buffer_length s), Fsync (fd (poll_fds_1 s))]"
proof -
  define off where "off = unat (buffer_offset s)"
  define len where "len = unat (buffer_length s)"
  have k: "k = min len r" using assms(5) by (simp add: len_def)
  have acc: "sys_write (fd (poll_fds_1 s)) len (write_res e) = Some k"
    using assms(2,3) by (simp add: sys_write_def k)
  have b: "length (buffer s) < 2 ^ 63" "off + len \<le> length (buffer s)" "k \<le> len"
    using assms(1) by (auto simp: in_bounds_def BUFFER_SIZE_def k off_def len_def)
  have u1: "unat (buffer_offset s + of_nat k) = off + k"
    using b by (simp add: unat_add_of_nat64 off_def)
  have u2: "unat (buffer_length s - of_nat k) = len - k"
    using b by (simp add: unat_sub_of_nat64 len_def)
  have no_overrun: "\<not> length (buffer s) < off + k" using b by simp
  have t: "t = s\<lparr> written := written s @ take k (drop off (buffer s)),
                calls := calls s @ [Write (fd (poll_fds_1 s)) (Buffer_plus (buffer_offset s))
                                      (buffer_length s), Fsync (fd (poll_fds_1 s))],
                buffer_offset := buffer_offset s + of_nat k,
                buffer_length := buffer_length s - of_nat k \<rparr>"
     and c: "write_buffer e s = Continue t"
    using assms(4,6) no_overrun
    by (simp_all add: write_buffer_def acc ret_val_def ASSERT_NONNEG_size_t_def do_fsync_def
          ASSERT_ZERO_def Let_def BUFFER_SIZE_def off_def [symmetric] len_def [symmetric])
  have p: "pending s = take len (drop off (buffer s))"
    by (simp add: pending_def off_def len_def)
  have "take k (pending s) = take k (drop off (buffer s))"
    using b(3) by (simp add: p min_def)
  moreover have "pending t = drop k (pending s)"
  proof -
    have "pending t = take (len - k) (drop (off + k) (buffer s))"
      unfolding pending_def t using u1 u2 by simp
    also have "\<dots> = drop k (pending s)"
      by (simp add: p drop_take add.commute)
    finally show ?thesis .
  qed
  ultimately show ?thesis
    using c u1 u2 by (simp add: t off_def len_def)
qed

lemma flag_set_drains:
  assumes "ad \<noteq> 0" "buffer_length s \<noteq> 0" "ASSERT_NONNEG_int (poll_ret e)" "in_bounds s"
    "0 \<le> sint (fd (poll_fds_1 s))" "ready_1 e AND POLLOUT \<noteq> 0" "ready_1 e AND POLLHUP = 0"
    "write_res e = Write_Room r" "fsync_ret e = 0"
    and "k = min (unat (buffer_length s)) r" and "t = state_of (pump_iter info ad e s)"
  shows "pump_iter info ad e s = Continue t
       \<and> written t = written s @ take k (pending s)
       \<and> pending t = drop k (pending s)
       \<and> unat (buffer_length t) = unat (buffer_length s) - k
       \<and> calls t = calls s @ [Poll, Write (fd (poll_fds_1 s)) (Buffer_plus (buffer_offset s))
                                 (buffer_length s), Fsync (fd (poll_fds_1 s))]"
proof -
  define u where "u = destination_hangup (source_hangup (do_poll e (s\<lparr> keep_going := 0 \<rparr>)))"
  have u: "calls u = calls s @ [Poll]" "buffer u = buffer s" "buffer_offset u = buffer_offset s"
    "buffer_length u = buffer_length s" "written u = written s"
    "revents (poll_fds_1 u) AND POLLOUT \<noteq> 0" "fd (poll_fds_1 u) = fd (poll_fds_1 s)"
    using assms(5-7)
    by (simp_all add: u_def do_poll_def source_hangup_def destination_hangup_def poll_revents_def)
  have ib: "in_bounds u" "pending u = pending s"
    using assms(4) u(2-4) by (simp_all add: in_bounds_def pending_def BUFFER_SIZE_def)
  have "pump_iter info ad e s = drain info e u"
    using assms(1-3) by (simp add: pump_iter_all_done pump_cycle_stopped u_def)
  then have d: "pump_iter info ad e s = write_buffer e u"
    using u(4,6) assms(2) by (simp add: drain_def word_greater_zero_iff)
  have "write_buffer e u = Continue t
       \<and> written t = written u @ take k (pending u)
       \<and> pending t = drop k (pending u)
       \<and> unat (buffer_length t) = unat (buffer_length u) - k
       \<and> unat (buffer_offset t) = unat (buffer_offset u) + k
       \<and> calls t = calls u @ [Write (fd (poll_fds_1 u)) (Buffer_plus (buffer_offset u))
                                 (buffer_length u), Fsync (fd (poll_fds_1 u))]"
    using assms(5) u(7) assms(10,11)
    by (intro write_buffer_result [OF ib(1) _ assms(8,9)]) (simp_all add: u(4) d)
  then show ?thesis using d u ib(2) by simp
qed

lemma drain_retired:
  assumes "buffer_length s = 0" "fd (poll_fds_1 s) = - 1" "keep_going s = 0"
    and "t = state_of (drain info e s)"
  shows "written t = written s \<and> buffer_length t = 0 \<and> fd (poll_fds_1 t) = - 1
       \<and> keep_going t = 0"
  using assms
  by (simp add: drain_def write_eot_def sys_write_def ret_val_def ASSERT_NONNEG_ssize_t_def
        ASSERT_fails_def Let_def)

lemma flag_set_hangup:
  assumes "ad \<noteq> 0" "buffer_length s \<noteq> 0" "ASSERT_NONNEG_int (poll_ret e)"
    "0 \<le> sint (fd (poll_fds_1 s))" "ready_1 e AND POLLHUP \<noteq> 0"
    and "t = state_of (pump_iter info ad e s)"
  shows "written t = written s \<and> buffer_length t = 0 \<and> fd (poll_fds_1 t) = - 1
       \<and> (pump_iter info ad e s = Continue t \<longrightarrow> pump_iter info ad' e' t = Finished t)"
proof -
  define u where "u = destination_hangup (source_hangup (do_poll e (s\<lparr> keep_going := 0 \<rparr>)))"
  have u: "buffer_length u = 0" "fd (poll_fds_1 u) = - 1" "keep_going u = 0"
    "written u = written s"
    using assms(4,5)
    by (simp_all add: u_def do_poll_def source_hangup_def destination_hangup_def poll_revents_def)
  have "pump_iter info ad e s = drain info e u"
    using assms(1-3) by (simp add: pump_iter_all_done pump_cycle_stopped u_def)
  then have t: "t = state_of (drain info e u)" using assms(6) by simp
  have r: "written t = written u \<and> buffer_length t = 0 \<and> fd (poll_fds_1 t) = - 1
       \<and> keep_going t = 0"
    by (rule drain_retired [OF u(1-3) t])
  then have "pump_iter info ad' e' t = Finished t"
    by (simp add: closed_Finished closed_def)
  then show ?thesis using r u(4) by simp
qed

lemma leaves_loop_drained:
  assumes "relay_inv s" "list_all (\<lambda>x. io_ok (snd x)) evs" "pump_loop info s evs = Finished t"
    "fd (poll_fds_1 t) \<noteq> - 1"
  shows "buffer_length t = 0
       \<and> (written t = consumed t \<or> (send_eot info \<noteq> 0 \<and> written t = consumed t @ [0x04]))"
proof -
  have "good info (pump_loop info s evs)"
    using assms(1,2) by (intro pump_loop_good relay_inv_run_inv) (simp_all add: list_all_iff)
  then show ?thesis
    using assms(3,4) by (auto simp: run_inv_def closed_def pending_def eot_char_def)
qed

text \<open>
  Claim C8, as amended. \<open>all_done\<close> starts as 0. Of the two pumps \<open>main\<close> starts only the
  one from the PTY to standard output has \<open>end_all\<close> set; a thread changes the flag only
  if its \<open>end_all\<close> is set, only after it has left its loop, and only to 1; the other
  pump leaves it as it is. Setting it twice is setting it once. Every test of the loop
  condition reads the flag. Once it is set, a pump whose buffer is empty leaves the loop
  at that test, without any further system call. A pump that still holds unsent bytes
  runs the pass with \<open>keep_going\<close> cleared: it makes no \<open>read\<close> and takes nothing more from
  its source; while the destination is neither writable nor hung up the pass is a \<open>poll\<close>
  alone and the unsent bytes stay as they are; when the destination is writable the bytes
  the \<open>write\<close> accepts are appended to what was written, in order, and the rest stay
  unsent; when the destination hangs up the buffer is emptied and the destination
  retired, and the next test leaves the loop. A pump whose reads and writes have not
  failed leaves its loop with an unretired destination only when its buffer is empty and
  everything it took from the source has been written, followed at most by the byte 4.
\<close>

theorem all_done_flag:
  "all_done_init = 0
   \<and> end_all (writer_info fdm) \<noteq> 0 \<and> end_all (reader_info fdm) = 0
   \<and> snd (redirection_thread_fn (reader_info fdm) buf0 evs ad) = ad
   \<and> (snd (redirection_thread_fn info buf0 evs ad) \<noteq> ad
        \<longrightarrow> end_all info \<noteq> 0 \<and> snd (redirection_thread_fn info buf0 evs ad) = 1
            \<and> fst (redirection_thread_fn info buf0 evs ad)
                = Finished (state_of (fst (redirection_thread_fn info buf0 evs ad))))
   \<and> set_all_done info (set_all_done info ad) = set_all_done info ad
   \<and> (ad \<noteq> 0 \<and> buffer_length s = 0
        \<longrightarrow> pump_iter info ad e s = Finished (s\<lparr> keep_going := 0 \<rparr>))
   \<and> (ad \<noteq> 0 \<and> buffer_length s \<noteq> 0
        \<longrightarrow> pump_iter info ad e s = pump_cycle info e (s\<lparr> keep_going := 0 \<rparr>))
   \<and> (ad \<noteq> 0
        \<longrightarrow> reads (state_of (pump_iter info ad e s)) = reads s
            \<and> consumed (state_of (pump_iter info ad e s)) = consumed s)
   \<and> (ad \<noteq> 0 \<and> buffer_length s \<noteq> 0 \<and> ASSERT_NONNEG_int (poll_ret e)
      \<and> poll_revents (fd (poll_fds_1 s)) (ready_1 e) AND POLLOUT = 0
      \<and> poll_revents (fd (poll_fds_1 s)) (ready_1 e) AND POLLHUP = 0
      \<and> t = state_of (pump_iter info ad e s)
        \<longrightarrow> pump_iter info ad e s = Continue t \<and> calls t = calls s @ [Poll]
            \<and> buffer t = buffer s \<and> buffer_offset t = buffer_offset s
            \<and> buffer_length t = buffer_length s \<and> written t = written s)
   \<and> (ad \<noteq> 0 \<and> buffer_length s \<noteq> 0 \<and> ASSERT_NONNEG_int (poll_ret e) \<and> in_bounds s
      \<and> 0 \<le> sint (fd (poll_fds_1 s)) \<and> ready_1 e AND POLLOUT \<noteq> 0 \<and> ready_1 e AND POLLHUP = 0
      \<and> write_res e = Write_Room r \<and> fsync_ret e = 0
      \<and> k = min (unat (buffer_length s)) r \<and> t = state_of (pump_iter info ad e s)
        \<longrightarrow> pump_iter info ad e s = Continue t
            \<and> written t = written s @ take k (pending s)
            \<and> pending t = drop k (pending s)
            \<and> unat (buffer_length t) = unat (buffer_length s) - k
            \<and> calls t = calls s @ [Poll, Write (fd (poll_fds_1 s)) (Buffer_plus (buffer_offset s))
                                      (buffer_length s), Fsync (fd (poll_fds_1 s))])
   \<and> (ad \<noteq> 0 \<and> buffer_length s \<noteq> 0 \<and> ASSERT_NONNEG_int (poll_ret e)
      \<and> 0 \<le> sint (fd (poll_fds_1 s)) \<and> ready_1 e AND POLLHUP \<noteq> 0
      \<and> t = state_of (pump_iter info ad e s)
        \<longrightarrow> written t = written s \<and> buffer_length t = 0 \<and> fd (poll_fds_1 t) = - 1
            \<and> (pump_iter info ad e s = Continue t \<longrightarrow> pump_iter info ad' e' t = Finished t))
   \<and> (relay_inv s \<and> list_all (\<lambda>x. io_ok (snd x)) run \<and> pump_loop info s run = Finished t
      \<and> fd (poll_fds_1 t) \<noteq> - 1
        \<longrightarrow> buffer_length t = 0
            \<and> (written t = consumed t
                \<or> (send_eot info \<noteq> 0 \<and> written t = consumed t @ [0x04])))"
proof (intro conjI impI; (elim conjE)?)
  show "all_done_init = 0" by (simp add: all_done_init_def)
  show "end_all (writer_info fdm) \<noteq> 0" by (simp add: writer_info_def)
  show "end_all (reader_info fdm) = 0" by (simp add: reader_info_def)
  show "snd (redirection_thread_fn (reader_info fdm) buf0 evs ad) = ad"
    by (simp add: reader_info_def redirection_thread_fn_def set_all_done_def
          split: outcome.splits)
  show "set_all_done info (set_all_done info ad) = set_all_done info ad"
    by (simp add: set_all_done_def)
next
  assume a: "snd (redirection_thread_fn info buf0 evs ad) \<noteq> ad"
  then show "end_all info \<noteq> 0" "snd (redirection_thread_fn info buf0 evs ad) = 1"
    "fst (redirection_thread_fn info buf0 evs ad)
       = Finished (state_of (fst (redirection_thread_fn info buf0 evs ad)))"
    by (auto simp: redirection_thread_fn_def set_all_done_def split: outcome.splits)
next
  assume "ad \<noteq> 0" "buffer_length s = 0"
  then show "pump_iter info ad e s = Finished (s\<lparr> keep_going := 0 \<rparr>)"
    by (simp add: pump_iter_all_done)
next
  assume "ad \<noteq> 0" "buffer_length s \<noteq> 0"
  then show "pump_iter info ad e s = pump_cycle info e (s\<lparr> keep_going := 0 \<rparr>)"
    by (simp add: pump_iter_all_done)
next
  assume "ad \<noteq> 0"
  then show "reads (state_of (pump_iter info ad e s)) = reads s"
    "consumed (state_of (pump_iter info ad e s)) = consumed s"
    by (simp_all add: flag_set_no_read)
next
  assume a: "ad \<noteq> 0" "buffer_length s \<noteq> 0" "ASSERT_NONNEG_int (poll_ret e)"
    "poll_revents (fd (poll_fds_1 s)) (ready_1 e) AND POLLOUT = 0"
    "poll_revents (fd (poll_fds_1 s)) (ready_1 e) AND POLLHUP = 0"
    "t = state_of (pump_iter info ad e s)"
  show "pump_iter info ad e s = Continue t" "calls t = calls s @ [Poll]"
    "buffer t = buffer s" "buffer_offset t = buffer_offset s"
    "buffer_length t = buffer_length s" "written t = written s"
    using flag_set_waits [OF a] by simp_all
next
  assume a: "ad \<noteq> 0" "buffer_length s \<noteq> 0" "ASSERT_NONNEG_int (poll_ret e)" "in_bounds s"
    "0 \<le> sint (fd (poll_fds_1 s))" "ready_1 e AND POLLOUT \<noteq> 0" "ready_1 e AND POLLHUP = 0"
    "write_res e = Write_Room r" "fsync_ret e = 0"
    "k = min (unat (buffer_length s)) r" "t = state_of (pump_iter info ad e s)"
  show "pump_iter info ad e s = Continue t"
    "written t = written s @ take k (pending s)"
    "pending t = drop k (pending s)"
    "unat (buffer_length t) = unat (buffer_length s) - k"
    "calls t = calls s @ [Poll, Write (fd (poll_fds_1 s)) (Buffer_plus (buffer_offset s))
                                 (buffer_length s), Fsync (fd (poll_fds_1 s))]"
    using flag_set_drains [OF a] by simp_all
next
  assume a: "ad \<noteq> 0" "buffer_length s \<noteq> 0" "ASSERT_NONNEG_int (poll_ret e)"
    "0 \<le> sint (fd (poll_fds_1 s))" "ready_1 e AND POLLHUP \<noteq> 0"
    "t = state_of (pump_iter info ad e s)"
  show "written t = written s" "buffer_length t = 0" "fd (poll_fds_1 t) = - 1"
    using flag_set_hangup [OF a] by simp_all
  assume "pump_iter info ad e s = Continue t"
  then show "pump_iter info ad' e' t = Finished t"
    using flag_set_hangup [OF a, of ad' e'] by simp
next
  assume a: "relay_inv s" "list_all (\<lambda>x. io_ok (snd x)) run" "pump_loop info s run = Finished t"
    "fd (poll_fds_1 t) \<noteq> - 1"
  show "buffer_length t = 0"
    "written t = consumed t \<or> (send_eot info \<noteq> 0 \<and> written t = consumed t @ [0x04])"
    using leaves_loop_drained [OF a] by simp_all
qed

text \<open>
  Claim C8 as stated fails for a sibling that holds unsent bytes: with three bytes in its
  buffer, the flag set and three passes in which nothing is ready, the pump is still in
  its loop.
\<close>

theorem sibling_keeps_draining_counterexample:
  "buffer_length filled = 3
   \<and> pump_loop (reader_info 3) filled [(1, idle), (1, idle), (1, idle)]
       = Continue (state_of (pump_loop (reader_info 3) filled [(1, idle), (1, idle), (1, idle)]))
   \<and> buffer_length (state_of (pump_loop (reader_info 3) filled [(1, idle), (1, idle), (1, idle)])) = 3
   \<and> keep_going (state_of (pump_loop (reader_info 3) filled [(1, idle), (1, idle), (1, idle)])) = 0"
  by (simp add: filled_eq pump_unfold event_unfold)

theorem all_done_flag_witness:
  "snd (redirection_thread_fn (writer_info 3) [0, 0, 0, 0, 0, 0, 0, 0]
          [(0, idle\<lparr> ready_0 := POLLHUP \<rparr>), (0, writable 8), (0, idle)] 0) = 1
   \<and> end_all (writer_info 3) = 1
   \<and> pump_iter (reader_info 3) 1 idle reader_start = Finished (reader_start\<lparr> keep_going := 0 \<rparr>)
   \<and> buffer_length filled = 3 \<and> pending filled = [104, 105, 106] \<and> written filled = []
   \<and> pump_iter (reader_info 3) 1 idle filled
       = pump_cycle (reader_info 3) idle (filled\<lparr> keep_going := 0 \<rparr>)
   \<and> reads (state_of (pump_iter (reader_info 3) 1 (readable [107]) filled)) = reads filled
   \<and> consumed (state_of (pump_iter (reader_info 3) 1 (readable [107]) filled)) = [104, 105, 106]
   \<and> pump_iter (reader_info 3) 1 idle filled
       = Continue (state_of (pump_iter (reader_info 3) 1 idle filled))
   \<and> calls (state_of (pump_iter (reader_info 3) 1 idle filled)) = [Poll, Read 0 8, Poll]
   \<and> pending (state_of (pump_iter (reader_info 3) 1 idle filled)) = [104, 105, 106]
   \<and> pump_iter (reader_info 3) 1 (writable 2) filled
       = Continue (state_of (pump_iter (reader_info 3) 1 (writable 2) filled))
   \<and> written (state_of (pump_iter (reader_info 3) 1 (writable 2) filled)) = [104, 105]
   \<and> pending (state_of (pump_iter (reader_info 3) 1 (writable 2) filled)) = [106]
   \<and> unat (buffer_length (state_of (pump_iter (reader_info 3) 1 (writable 2) filled))) = 1
   \<and> calls (state_of (pump_iter (reader_info 3) 1 (writable 2) filled))
       = [Poll, Read 0 8, Poll, Write 3 (Buffer_plus 0) 3, Fsync 3]
   \<and> written (state_of (pump_iter (reader_info 3) 1 destination_gone filled)) = []
   \<and> buffer_length (state_of (pump_iter (reader_info 3) 1 destination_gone filled)) = 0
   \<and> fd (poll_fds_1 (state_of (pump_iter (reader_info 3) 1 destination_gone filled))) = - 1
   \<and> pump_iter (reader_info 3) 1 idle
        (state_of (pump_iter (reader_info 3) 1 destination_gone filled))
       = Finished (state_of (pump_iter (reader_info 3) 1 destination_gone filled))
   \<and> pump_loop (reader_info 3) filled [(1, writable 8), (1, idle)]
       = Finished (state_of (pump_loop (reader_info 3) filled [(1, writable 8), (1, idle)]))
   \<and> written (state_of (pump_loop (reader_info 3) filled [(1, writable 8), (1, idle)]))
       = [104, 105, 106]"
proof -
  define w where "w = state_of (pump_loop (reader_info 3) filled [(1, writable 8), (1, idle)])"
  have a: "snd (redirection_thread_fn (writer_info 3) [0, 0, 0, 0, 0, 0, 0, 0]
          [(0, idle\<lparr> ready_0 := POLLHUP \<rparr>), (0, writable 8), (0, idle)] 0) \<noteq> 0"
    by (simp add: redirection_thread_fn_def set_all_done_def pump_unfold event_unfold)
  have b: "(1 :: c_int) \<noteq> 0" "buffer_length reader_start = 0" "buffer_length filled \<noteq> 0"
    "buffer_length filled = 3" "pending filled = [104, 105, 106]" "written filled = []"
    "consumed filled = [104, 105, 106]" "calls filled = [Poll, Read 0 8]"
    "fd (poll_fds_1 filled) = 3" "buffer_offset filled = 0" "in_bounds filled"
    "relay_inv filled"
    by (simp_all add: filled_eq reader_start_def pump_init_def pending_def in_bounds_def
          relay_inv_def BUFFER_SIZE_def)
  have c: "ASSERT_NONNEG_int (poll_ret idle)" "ASSERT_NONNEG_int (poll_ret (writable 2))"
    "ASSERT_NONNEG_int (poll_ret destination_gone)"
    "poll_revents 3 (ready_1 idle) AND POLLOUT = 0" "poll_revents 3 (ready_1 idle) AND POLLHUP = 0"
    "ready_1 (writable 2) AND POLLOUT \<noteq> 0" "ready_1 (writable 2) AND POLLHUP = 0"
    "write_res (writable 2) = Write_Room 2" "fsync_ret (writable 2) = 0"
    "ready_1 destination_gone AND POLLHUP \<noteq> 0"
    "list_all (\<lambda>x. io_ok (snd x)) [(1 :: c_int, writable 8), (1, idle)]"
    by (simp_all add: event_unfold ASSERT_NONNEG_int_def poll_revents_def POLLOUT_def POLLHUP_def
          io_ok_def)
  have d: "pump_loop (reader_info 3) filled [(1, writable 8), (1, idle)] = Finished w"
    "fd (poll_fds_1 w) \<noteq> - 1" "consumed w = [104, 105, 106]" "send_eot (reader_info 3) \<noteq> 0"
    "found_eof w = 0"
    unfolding w_def by (simp_all add: filled_eq pump_unfold event_unfold)
  have f1: "snd (redirection_thread_fn (writer_info 3) [0, 0, 0, 0, 0, 0, 0, 0]
          [(0, idle\<lparr> ready_0 := POLLHUP \<rparr>), (0, writable 8), (0, idle)] 0) = 1
      \<and> end_all (writer_info 3) = 1"
    using all_done_flag [where ad = 0 and info = "writer_info 3"
        and ?buf0.0 = "[0, 0, 0, 0, 0, 0, 0, 0]"
        and evs = "[(0, idle\<lparr> ready_0 := POLLHUP \<rparr>), (0, writable 8), (0, idle)]",
        THEN conjunct2, THEN conjunct2, THEN conjunct2, THEN conjunct2, THEN conjunct1] a
    by (simp add: writer_info_def)
  have f2: "pump_iter (reader_info 3) 1 idle reader_start
              = Finished (reader_start\<lparr> keep_going := 0 \<rparr>)"
    using all_done_flag [where ad = 1 and info = "reader_info 3" and s = reader_start
        and e = idle, THEN conjunct2, THEN conjunct2, THEN conjunct2, THEN conjunct2, THEN conjunct2, THEN conjunct2, THEN conjunct1] b(1,2)
    by simp
  have f3: "pump_iter (reader_info 3) 1 idle filled
              = pump_cycle (reader_info 3) idle (filled\<lparr> keep_going := 0 \<rparr>)"
    using all_done_flag [where ad = 1 and info = "reader_info 3" and s = filled
        and e = idle, THEN conjunct2, THEN conjunct2, THEN conjunct2, THEN conjunct2, THEN conjunct2, THEN conjunct2, THEN conjunct2, THEN conjunct1] b(1,3)
    by simp
  have f4: "reads (state_of (pump_iter (reader_info 3) 1 (readable [107]) filled)) = reads filled
      \<and> consumed (state_of (pump_iter (reader_info 3) 1 (readable [107]) filled))
          = [104, 105, 106]"
    using all_done_flag [where ad = 1 and info = "reader_info 3" and s = filled
        and e = "readable [107]", THEN conjunct2, THEN conjunct2, THEN conjunct2, THEN conjunct2, THEN conjunct2, THEN conjunct2, THEN conjunct2, THEN conjunct2, THEN conjunct1] b(1,7)
    by simp
  have f5: "pump_iter (reader_info 3) 1 idle filled
          = Continue (state_of (pump_iter (reader_info 3) 1 idle filled))
      \<and> calls (state_of (pump_iter (reader_info 3) 1 idle filled)) = [Poll, Read 0 8, Poll]
      \<and> pending (state_of (pump_iter (reader_info 3) 1 idle filled)) = [104, 105, 106]"
    using all_done_flag [where ad = 1 and info = "reader_info 3" and s = filled and e = idle
        and t = "state_of (pump_iter (reader_info 3) 1 idle filled)", THEN conjunct2, THEN conjunct2, THEN conjunct2, THEN conjunct2, THEN conjunct2, THEN conjunct2, THEN conjunct2, THEN conjunct2, THEN conjunct2, THEN conjunct1]
      b c(1,4,5)
    by (simp add: pending_def)
  have f6: "pump_iter (reader_info 3) 1 (writable 2) filled
       = Continue (state_of (pump_iter (reader_info 3) 1 (writable 2) filled))
   \<and> written (state_of (pump_iter (reader_info 3) 1 (writable 2) filled)) = [104, 105]
   \<and> pending (state_of (pump_iter (reader_info 3) 1 (writable 2) filled)) = [106]
   \<and> unat (buffer_length (state_of (pump_iter (reader_info 3) 1 (writable 2) filled))) = 1
   \<and> calls (state_of (pump_iter (reader_info 3) 1 (writable 2) filled))
       = [Poll, Read 0 8, Poll, Write 3 (Buffer_plus 0) 3, Fsync 3]"
    using all_done_flag [where ad = 1 and info = "reader_info 3" and s = filled
        and e = "writable 2" and r = 2 and k = 2
        and t = "state_of (pump_iter (reader_info 3) 1 (writable 2) filled)", THEN conjunct2, THEN conjunct2, THEN conjunct2, THEN conjunct2, THEN conjunct2, THEN conjunct2, THEN conjunct2, THEN conjunct2, THEN conjunct2, THEN conjunct2, THEN conjunct1]
      b c(2,6,7,8,9)
    by simp
  have f7: "written (state_of (pump_iter (reader_info 3) 1 destination_gone filled)) = []
   \<and> buffer_length (state_of (pump_iter (reader_info 3) 1 destination_gone filled)) = 0
   \<and> fd (poll_fds_1 (state_of (pump_iter (reader_info 3) 1 destination_gone filled))) = - 1"
    using all_done_flag [where ad = 1 and info = "reader_info 3" and s = filled
        and e = destination_gone
        and t = "state_of (pump_iter (reader_info 3) 1 destination_gone filled)", THEN conjunct2, THEN conjunct2, THEN conjunct2, THEN conjunct2, THEN conjunct2, THEN conjunct2, THEN conjunct2, THEN conjunct2, THEN conjunct2, THEN conjunct2, THEN conjunct2, THEN conjunct1]
      b c(3,10)
    by simp
  have g: "pump_iter (reader_info 3) 1 destination_gone filled
             = Continue (state_of (pump_iter (reader_info 3) 1 destination_gone filled))"
    by (simp add: filled_eq pump_unfold event_unfold)
  have f10: "pump_iter (reader_info 3) 1 idle
        (state_of (pump_iter (reader_info 3) 1 destination_gone filled))
       = Finished (state_of (pump_iter (reader_info 3) 1 destination_gone filled))"
    using all_done_flag [where ad = 1 and info = "reader_info 3" and s = filled
        and e = destination_gone and ad' = 1 and e' = idle
        and t = "state_of (pump_iter (reader_info 3) 1 destination_gone filled)", THEN conjunct2, THEN conjunct2, THEN conjunct2, THEN conjunct2, THEN conjunct2, THEN conjunct2, THEN conjunct2, THEN conjunct2, THEN conjunct2, THEN conjunct2, THEN conjunct2, THEN conjunct1]
      b c(3,10) g
    by simp
  have f8: "buffer_length w = 0"
    using all_done_flag [where info = "reader_info 3" and s = filled
        and run = "[(1, writable 8), (1, idle)]" and t = w, THEN conjunct2, THEN conjunct2, THEN conjunct2, THEN conjunct2, THEN conjunct2, THEN conjunct2, THEN conjunct2, THEN conjunct2, THEN conjunct2, THEN conjunct2, THEN conjunct2, THEN conjunct2]
      b(12) c(11) d(1,2)
    by simp
  have f9: "written w = [104, 105, 106]"
    using f8 d(3) b(12) by (simp add: w_def filled_eq pump_unfold event_unfold)
  show ?thesis
    using f1 f2 f3 f4 f5 f6 f7 f8 f9 f10 b(4,5,6) d(1)
    by (simp add: w_def [symmetric])
qed

subsection \<open>Where the code departs from its description\<close>

text \<open>
  The assertions on \<open>poll\<close>, on \<open>fsync\<close> and on the \<open>write\<close> of the end-of-transmission byte
  compare signed values: a failure of one of these calls prints the diagnostic and ends the
  process.
\<close>

lemma poll_failure_is_fatal:
  assumes "\<not> ASSERT_NONNEG_int (poll_ret e)"
  shows "pump_cycle info e s
           = Died ((do_poll e s)\<lparr> stderr := stderr s @ ''terminator: '' @ errno_text e @ [CHR 0x0A] \<rparr>)"
  using assms
  by (simp add: pump_cycle_def Let_def ASSERT_fails_def ASSERT_output_def
        ASSERT_PRINT_PROGRAM_NAME_def ASSERT_PROGRAM_NAME_def do_poll_def)

lemma fsync_failure_is_fatal:
  assumes "fsync_ret e \<noteq> 0"
  shows "do_fsync e s k
           = Died (s\<lparr> calls := calls s @ [Fsync (fd (poll_fds_1 s))],
                      stderr := stderr s @ ''terminator: '' @ errno_text e @ [CHR 0x0A] \<rparr>)"
  using assms
  by (simp add: do_fsync_def Let_def ASSERT_ZERO_def ASSERT_fails_def ASSERT_output_def
        ASSERT_PRINT_PROGRAM_NAME_def ASSERT_PROGRAM_NAME_def)

lemma eot_write_failure_is_fatal:
  assumes "write_res e = Write_Error"
  shows "write_eot info e s
           = Died (s\<lparr> calls := calls s @ [Write (fd (poll_fds_1 s)) Eot_char
                                  (if send_eot info \<noteq> 0 \<and> (isastream_ret e \<noteq> 0 \<or> isatty_ret e \<noteq> 0)
                                   then 1 else 0)],
                      stderr := stderr s @ ''terminator: '' @ errno_text e @ [CHR 0x0A] \<rparr>)"
  using assms
  by (simp add: write_eot_def sys_write_def ret_val_def ASSERT_NONNEG_ssize_t_def Let_def
        ASSERT_fails_def ASSERT_output_def ASSERT_PRINT_PROGRAM_NAME_def ASSERT_PROGRAM_NAME_def)

text \<open>
  A hang-up of the destination ends the pump at once and without a \<open>write\<close> when the
  destination is not reported writable in the same pass, or no end of input is pending.
\<close>

lemma destination_hangup_ends_pump:
  assumes "ASSERT_NONNEG_int (poll_ret e)" and "0 \<le> sint (fd (poll_fds_1 s))"
    and "ready_1 e AND POLLHUP \<noteq> 0"
    and "ready_1 e AND POLLOUT = 0
         \<or> (found_eof s = 0
             \<and> \<not> (poll_revents (fd (poll_fds_0 s)) (ready_0 e) AND POLLHUP \<noteq> 0
                  \<and> poll_revents (fd (poll_fds_0 s)) (ready_0 e) AND POLLIN = 0))"
  shows "\<exists>s'. pump_cycle info e s = Continue s' \<and> fd (poll_fds_1 s') = - 1
            \<and> buffer_length s' = 0 \<and> buffer_offset s' = 0 \<and> keep_going s' = 0
            \<and> calls s' = calls s @ [Poll] \<and> written s' = written s
            \<and> pump_iter info ad e' s' = Finished s'"
proof -
  define t where "t = destination_hangup (source_hangup (do_poll e s))"
  have t: "fd (poll_fds_1 t) = - 1" "buffer_length t = 0" "buffer_offset t = 0" "keep_going t = 0"
    "calls t = calls s @ [Poll]" "written t = written s"
    "revents (poll_fds_1 t) = ready_1 e"
    using assms(2,3)
    by (simp_all add: t_def do_poll_def source_hangup_def destination_hangup_def poll_revents_def)
  have eof: "ready_1 e AND POLLOUT = 0 \<or> found_eof t = 0"
    using assms(4)
    by (auto simp: t_def do_poll_def source_hangup_def destination_hangup_def)
  have "fill e t = Continue t" using t(4) by (simp add: fill_def)
  moreover have "drain info e t = Continue t"
    using eof t(2,7) by (auto simp: drain_def)
  ultimately have "pump_cycle info e s = Continue t"
    using assms(1) by (simp add: pump_cycle_def Let_def t_def)
  moreover have "pump_iter info ad e' t = Finished t"
    using t(2,4) by (simp add: closed_Finished closed_def)
  ultimately show ?thesis using t by simp
qed

text \<open>
  Claim C3 does not hold of the code. \<open>n_read\<close> and \<open>n_written\<close> are of type \<open>size_t\<close>, so
  \<open>ASSERT_NONNEG\<close> compares an unsigned value with 0 and never fails. When \<open>read\<close> returns
  \<open>-1\<close> the pass ends without a diagnostic and with \<open>buffer_length = SIZE_MAX\<close>. When
  \<open>write\<close> returns \<open>-1\<close> (and \<open>fsync\<close> succeeds) the offset moves back by one and the length
  grows by one, so the next \<open>write\<close> sends a byte a second time: after reading
  \<open>104, 105, 106\<close> the destination has received \<open>104, 105, 105, 106\<close>.
\<close>

theorem read_error_taken_as_data:
  "pump_cycle (writer_info 3) read_fails writer_start
     = Continue (state_of (pump_cycle (writer_info 3) read_fails writer_start))
   \<and> calls (state_of (pump_cycle (writer_info 3) read_fails writer_start)) = [Poll, Read 3 8]
   \<and> stderr (state_of (pump_cycle (writer_info 3) read_fails writer_start)) = []
   \<and> unat (buffer_length (state_of (pump_cycle (writer_info 3) read_fails writer_start)))
       = 18446744073709551615
   \<and> pump_loop (writer_info 3) writer_start write_error_run
     = Continue (state_of (pump_loop (writer_info 3) writer_start write_error_run))
   \<and> stderr (state_of (pump_loop (writer_info 3) writer_start write_error_run)) = []
   \<and> consumed (state_of (pump_loop (writer_info 3) writer_start write_error_run))
       = [104, 105, 106]
   \<and> written (state_of (pump_loop (writer_info 3) writer_start write_error_run))
       = [104, 105, 105, 106]"
  by (simp add: write_error_run_def pump_unfold event_unfold unsigned_minus_1_eq_mask mask_eq_exp_minus_1)

text \<open>
  Claim C5 does not hold of the code in one case. The source has reached its end while the
  destination was not writable; then \<open>poll\<close> reports the destination hung up and writable
  at once. The pump retires the destination and then, in the same pass, calls \<open>write\<close>
  with the end-of-transmission byte on descriptor \<open>-1\<close>; the call fails and the process
  exits with a diagnostic.
\<close>

theorem write_after_destination_hangup:
  "pump_loop (reader_info 3) reader_start eof_then_hangup_run
     = Died (state_of (pump_loop (reader_info 3) reader_start eof_then_hangup_run))
   \<and> calls (state_of (pump_loop (reader_info 3) reader_start eof_then_hangup_run))
       = [Poll, Read 0 8, Poll, Write (- 1) Eot_char 1]
   \<and> stderr (state_of (pump_loop (reader_info 3) reader_start eof_then_hangup_run))
       = ''terminator: Bad file descriptor'' @ [CHR 0x0A]"
  by (simp add: eof_then_hangup_run_def pump_unfold event_unfold)

end
